theory Spec2Isabelle
  imports Main "HOL-Library.Sublist"
begin

section \<open>Go strings and the library calls the chunker makes\<close>

text \<open>
  A Go string is a sequence of bytes and \<^verbatim>\<open>len\<close> counts bytes, so a Go string is a
  \<^typ>\<open>string\<close> here (a list of 8-bit characters) and \<^verbatim>\<open>len\<close> is \<^const>\<open>length\<close>.
\<close>

definition newline :: char where
  "newline = CHR 0x0A"

text \<open>
  \<^verbatim>\<open>strings.TrimSpace\<close> removes leading and trailing white space as Unicode defines it
  (\<^verbatim>\<open>unicode.IsSpace\<close>), decoding the string as UTF-8. The white-space code points are
  U+0009..U+000D, U+0020, U+0085, U+00A0, U+1680, U+2000..U+200A, U+2028, U+2029, U+202F,
  U+205F and U+3000; \<open>ws_seqs\<close> lists their UTF-8 encodings. An invalid byte sequence
  decodes to U+FFFD, which is not white space, so trimming stops there.
\<close>

definition ws_seqs :: "string list" where
  "ws_seqs =
    [[CHR 0x09], [CHR 0x0A], [CHR 0x0B], [CHR 0x0C], [CHR 0x0D], [CHR 0x20],
     [CHR 0xC2, CHR 0x85], [CHR 0xC2, CHR 0xA0],
     [CHR 0xE1, CHR 0x9A, CHR 0x80],
     [CHR 0xE2, CHR 0x80, CHR 0x80], [CHR 0xE2, CHR 0x80, CHR 0x81],
     [CHR 0xE2, CHR 0x80, CHR 0x82], [CHR 0xE2, CHR 0x80, CHR 0x83],
     [CHR 0xE2, CHR 0x80, CHR 0x84], [CHR 0xE2, CHR 0x80, CHR 0x85],
     [CHR 0xE2, CHR 0x80, CHR 0x86], [CHR 0xE2, CHR 0x80, CHR 0x87],
     [CHR 0xE2, CHR 0x80, CHR 0x88], [CHR 0xE2, CHR 0x80, CHR 0x89],
     [CHR 0xE2, CHR 0x80, CHR 0x8A],
     [CHR 0xE2, CHR 0x80, CHR 0xA8], [CHR 0xE2, CHR 0x80, CHR 0xA9],
     [CHR 0xE2, CHR 0x80, CHR 0xAF],
     [CHR 0xE2, CHR 0x81, CHR 0x9F],
     [CHR 0xE3, CHR 0x80, CHR 0x80]]"

text \<open>The white-space rune a string starts with, and the one it ends with, if any.\<close>

definition ws_prefix :: "string \<Rightarrow> string option" where
  "ws_prefix s = find (\<lambda>w. prefix w s) ws_seqs"

definition ws_suffix :: "string \<Rightarrow> string option" where
  "ws_suffix s = find (\<lambda>w. suffix w s) ws_seqs"

function TrimLeft :: "string \<Rightarrow> string" where
  "TrimLeft s =
     (case ws_prefix s of
        None \<Rightarrow> s
      | Some w \<Rightarrow> TrimLeft (drop (length w) s))"
  by pat_completeness auto
termination
proof (relation "measure length")
  fix s w
  assume "ws_prefix s = Some w"
  then have w: "w \<in> set ws_seqs" and p: "prefix w s"
    by (auto simp: ws_prefix_def find_Some_iff)
  from w have "0 < length w"
    by (auto simp: ws_seqs_def)
  moreover from p have "length w \<le> length s"
    by (rule prefix_length_le)
  ultimately have "length s - length w < length s"
    by arith
  then show "(drop (length w) s, s) \<in> measure length"
    by simp
qed simp

function TrimRight :: "string \<Rightarrow> string" where
  "TrimRight s =
     (case ws_suffix s of
        None \<Rightarrow> s
      | Some w \<Rightarrow> TrimRight (take (length s - length w) s))"
  by pat_completeness auto
termination
proof (relation "measure length")
  fix s w
  assume "ws_suffix s = Some w"
  then have w: "w \<in> set ws_seqs" and p: "suffix w s"
    by (auto simp: ws_suffix_def find_Some_iff)
  from w have "0 < length w"
    by (auto simp: ws_seqs_def)
  moreover from p have "length w \<le> length s"
    by (rule suffix_length_le)
  ultimately have "length s - length w < length s"
    by arith
  then show "(take (length s - length w) s, s) \<in> measure length"
    by simp
qed simp

declare TrimLeft.simps [simp del]
declare TrimRight.simps [simp del]

definition TrimSpace :: "string \<Rightarrow> string" where
  "TrimSpace s = TrimRight (TrimLeft s)"

text \<open>
  \<^verbatim>\<open>strings.Split(s, "\n")\<close>: the pieces of \<open>s\<close> between newlines; a string without a
  newline (the empty string too) gives one piece.
\<close>

fun Split_newline :: "string \<Rightarrow> string list" where
  "Split_newline [] = [[]]"
| "Split_newline (c # cs) =
     (let r = Split_newline cs
      in if c = newline then [] # r else (c # hd r) # tl r)"

section \<open>The text chunker\<close>

text \<open>
  The loop of \<^verbatim>\<open>SplitMessage\<close> over the lines, with its two variables \<open>result\<close> and
  \<open>currentPart\<close>. The limit is a Go \<^verbatim>\<open>int\<close>; the lengths of strings held in memory
  cannot overflow it, so the comparison is on \<^typ>\<open>int\<close>.
\<close>

fun SplitMessage_loop :: "int \<Rightarrow> string list \<Rightarrow> string list \<Rightarrow> string \<Rightarrow> string list \<times> string" where
  "SplitMessage_loop limit [] result currentPart = (result, currentPart)"
| "SplitMessage_loop limit (l # lines) result currentPart =
     (let line = TrimSpace l
      in if line = [] then SplitMessage_loop limit lines result currentPart
         else if int (length currentPart) + int (length line) + 1 > limit \<and> currentPart \<noteq> []
           then SplitMessage_loop limit lines (result @ [TrimSpace currentPart]) line
           else SplitMessage_loop limit lines result
                  ((if currentPart \<noteq> [] then currentPart @ [newline] else currentPart) @ line))"

definition SplitMessage :: "string \<Rightarrow> int \<Rightarrow> string list" where
  "SplitMessage text limit =
     (let lines = Split_newline (TrimSpace text);
          (result, currentPart) = SplitMessage_loop limit lines [] []
      in if TrimSpace currentPart \<noteq> [] then result @ [TrimSpace currentPart] else result)"

text \<open>Joining strings with newlines, as a reader of the chunks would.\<close>

fun Join_newline :: "string list \<Rightarrow> string" where
  "Join_newline [] = []"
| "Join_newline [x] = x"
| "Join_newline (x # y # ys) = x @ newline # Join_newline (y # ys)"

text \<open>
  The trimmed, non-blank lines of a text: every line trimmed, blank lines removed. This is
  what the specification compares the chunks with.
\<close>

definition nonblank_lines :: "string \<Rightarrow> string list" where
  "nonblank_lines text = filter (\<lambda>l. l \<noteq> []) (map TrimSpace (Split_newline text))"

text \<open>
  The invariant of the loop, used in the proofs: a part is non-empty, starts and ends with
  no white space, has no empty line, and is within the limit unless it is a single line.
\<close>

definition chunk_ok :: "int \<Rightarrow> string \<Rightarrow> bool" where
  "chunk_ok limit c \<longleftrightarrow>
     c \<noteq> [] \<and> ws_prefix c = None \<and> ws_suffix c = None \<and> [] \<notin> set (Split_newline c) \<and>
     (int (length c) \<le> limit \<or> newline \<notin> set c)"

definition flat :: "string list \<Rightarrow> string \<Rightarrow> string list" where
  "flat r c = concat (map Split_newline r) @ (if c = [] then [] else Split_newline c)"

section \<open>The records of the fetcher and the response formatter\<close>

text \<open>
  Of a \<^verbatim>\<open>time.Time\<close> the formatter reads the calendar date only (layout
  \<^verbatim>\<open>"2006-01-02"\<close>), so a time is its year, month and day.
\<close>

record Time =
  Year :: int
  Month :: nat
  Day :: nat

record Follow =
  Follow_ID :: string
  Follow_DisplayName :: string
  Follow_Login :: string
  Follow_Avatar :: string
  Follow_FollowedAt :: Time
  Follow_IsLive :: bool

record Mod =
  Mod_ID :: string
  Mod_DisplayName :: string
  Mod_Login :: string
  Mod_Avatar :: string
  Mod_GrantedAt :: Time
  Mod_Banned :: bool

record Vip =
  Vip_ID :: string
  Vip_DisplayName :: string
  Vip_Login :: string
  Vip_Avatar :: string
  Vip_GrantedAt :: Time
  Vip_Banned :: bool

record Founders =
  Founders_ID :: string
  Founders_DisplayName :: string
  Founders_Login :: string
  Founders_FirstMonth :: Time
  Founders_IsSubscribed :: bool
  Founders_Avatar :: string
  Founders_Banned :: bool

text \<open>The verb \<^verbatim>\<open>%d\<close> of \<^verbatim>\<open>fmt\<close>: a decimal numeral, with a minus sign when negative.\<close>

definition digit :: "nat \<Rightarrow> char" where
  "digit n = ''0123456789'' ! (n mod 10)"

function FormatUint :: "nat \<Rightarrow> string" where
  "FormatUint n = (if n < 10 then [digit n] else FormatUint (n div 10) @ [digit n])"
  by pat_completeness auto
termination
  by (relation "measure id") auto

declare FormatUint.simps [simp del]

definition Itoa :: "int \<Rightarrow> string" where
  "Itoa x = (if x < 0 then CHR ''-'' # FormatUint (nat (- x)) else FormatUint (nat x))"

text \<open>
  \<^verbatim>\<open>appendInt\<close> of package \<^verbatim>\<open>time\<close>: the numeral padded with zeros to a width, and
  \<^verbatim>\<open>Time.Format("2006-01-02")\<close>, which writes the year on four digits and the month and
  day on two.
\<close>

definition appendInt :: "int \<Rightarrow> nat \<Rightarrow> string" where
  "appendInt x width =
     (let u = FormatUint (nat \<bar>x\<bar>)
      in (if x < 0 then ''-'' else []) @ replicate (width - length u) (CHR ''0'') @ u)"

definition Format_date :: "Time \<Rightarrow> string" where
  "Format_date t =
     appendInt (Year t) 4 @ ''-'' @ appendInt (int (Month t)) 2 @ ''-'' @ appendInt (int (Day t)) 2"

text \<open>
  The four formatters. Each is its loop over the records, with the loop index \<open>i\<close> and the
  string \<open>response\<close> it appends to.
\<close>

fun FormatFollows_loop :: "nat \<Rightarrow> Follow list \<Rightarrow> string \<Rightarrow> string" where
  "FormatFollows_loop i [] response = response"
| "FormatFollows_loop i (follow # follows) response =
     (let twitchURL = ''https://twitch.tv/'' @ Follow_Login follow;
          formattedDate = Format_date (Follow_FollowedAt follow)
      in FormatFollows_loop (i + 1) follows
           (response @ Itoa (int i + 1) @ ''. <a href=\"'' @ twitchURL @ ''\">'' @
            Follow_DisplayName follow @ ''</a> (followed at '' @ formattedDate @ '')\<newline>''))"

definition FormatFollows :: "string \<Rightarrow> Follow list \<Rightarrow> string" where
  "FormatFollows username follows =
     FormatFollows_loop 0 follows
       (''<a href=\"https://twitch.tv/'' @ username @ ''\">'' @ username @
        ''</a> is following:\<newline>'')"

fun FormatMods_loop :: "nat \<Rightarrow> Mod list \<Rightarrow> string \<Rightarrow> string" where
  "FormatMods_loop i [] response = response"
| "FormatMods_loop i (moder # mods) response =
     (let twitchURL = ''https://twitch.tv/'' @ Mod_Login moder;
          formattedDate = Format_date (Mod_GrantedAt moder)
      in FormatMods_loop (i + 1) mods
           (response @ Itoa (int i + 1) @ ''. <a href=\"'' @ twitchURL @ ''\">'' @
            Mod_DisplayName moder @ ''</a> (moded at '' @ formattedDate @ '')\<newline>''))"

definition FormatMods :: "string \<Rightarrow> Mod list \<Rightarrow> string" where
  "FormatMods username mods =
     FormatMods_loop 0 mods
       (''<a href=\"https://twitch.tv/'' @ username @ ''\">'' @ username @
        ''</a>'s list of channel moders:\<newline>'')"

fun FormatVips_loop :: "nat \<Rightarrow> Vip list \<Rightarrow> string \<Rightarrow> string" where
  "FormatVips_loop i [] response = response"
| "FormatVips_loop i (vip # vips) response =
     (let twitchURL = ''https://twitch.tv/'' @ Vip_Login vip;
          formattedDate = Format_date (Vip_GrantedAt vip)
      in FormatVips_loop (i + 1) vips
           (response @ Itoa (int i + 1) @ ''. <a href=\"'' @ twitchURL @ ''\">'' @
            Vip_DisplayName vip @ ''</a> (viped at '' @ formattedDate @ '')\<newline>''))"

definition FormatVips :: "string \<Rightarrow> Vip list \<Rightarrow> string" where
  "FormatVips username vips =
     FormatVips_loop 0 vips
       (''<a href=\"https://twitch.tv/'' @ username @ ''\">'' @ username @
        ''</a>'s list of channel vips:\<newline>'')"

fun FormatFounders_loop :: "nat \<Rightarrow> Founders list \<Rightarrow> string \<Rightarrow> string" where
  "FormatFounders_loop i [] response = response"
| "FormatFounders_loop i (founder # founders) response =
     (let twitchURL = ''https://twitch.tv/'' @ Founders_Login founder;
          formattedDate = Format_date (Founders_FirstMonth founder)
      in FormatFounders_loop (i + 1) founders
           (response @ Itoa (int i + 1) @ ''. <a href=\"'' @ twitchURL @ ''\">'' @
            Founders_DisplayName founder @ ''</a> (founded at '' @ formattedDate @ '')\<newline>''))"

definition FormatFounders :: "string \<Rightarrow> Founders list \<Rightarrow> string" where
  "FormatFounders username founders =
     FormatFounders_loop 0 founders
       (''<a href=\"https://twitch.tv/'' @ username @ ''\">'' @ username @
        ''</a>'s list of channel founders:\<newline>'')"

text \<open>
  What the specification calls a clickable link to a channel, and a numbered line: the
  number, the link to the record's channel under its display name, and the dated remark.
\<close>

definition channel_link :: "string \<Rightarrow> string \<Rightarrow> string" where
  "channel_link login label = ''<a href=\"https://twitch.tv/'' @ login @ ''\">'' @ label @ ''</a>''"

definition numbered_line :: "nat \<Rightarrow> string \<Rightarrow> string \<Rightarrow> string \<Rightarrow> Time \<Rightarrow> string" where
  "numbered_line n login label verb t =
     Itoa (int n) @ ''. '' @ channel_link login label @
     '' ('' @ verb @ '' at '' @ Format_date t @ '')\<newline>''"

section \<open>The data fetcher\<close>

text \<open>
  A fetch makes three library calls: it builds a GET request for a URL
  (\<^verbatim>\<open>http.NewRequestWithContext\<close>), sends it (\<^verbatim>\<open>client.Do\<close>) and decodes the body
  of the response as a JSON array of records (\<^verbatim>\<open>json.Decoder.Decode\<close>). Each call
  gives an error or a result; the errors are their messages. The record below is what
  these calls answer: it stands for the network and the decoder.
\<close>

record Response =
  StatusCode :: int
  Body :: string

record Fetcher =
  NewRequestWithContext :: "string \<Rightarrow> string option"
  client_Do :: "string \<Rightarrow> string + Response"
  Decode_Follows :: "string \<Rightarrow> string + Follow list"
  Decode_Mods :: "string \<Rightarrow> string + Mod list"
  Decode_Vips :: "string \<Rightarrow> string + Vip list"
  Decode_Founders :: "string \<Rightarrow> string + Founders list"

definition StatusOK :: int where "StatusOK = 200"
definition StatusBadRequest :: int where "StatusBadRequest = 400"
definition StatusNotFound :: int where "StatusNotFound = 404"

definition FetchFollows :: "Fetcher \<Rightarrow> string \<Rightarrow> string + Follow list" where
  "FetchFollows f username =
     (let url = ''https://tools.2807.eu/api/getfollows/'' @ username
      in case NewRequestWithContext f url of
           Some err \<Rightarrow> Inl (''failed to create request: '' @ err)
         | None \<Rightarrow>
            (case client_Do f url of
               Inl err \<Rightarrow> Inl (''failed to fetch follows: '' @ err)
             | Inr resp \<Rightarrow>
                if StatusCode resp \<noteq> StatusOK then
                  (if StatusCode resp = StatusBadRequest
                     then Inl ''the user does not follow any channel''
                   else if StatusCode resp = StatusNotFound
                     then Inl ''user not found''
                   else Inl (''unexpected status code: '' @ Itoa (StatusCode resp)))
                else
                  (case Decode_Follows f (Body resp) of
                     Inl err \<Rightarrow> Inl (''failed to decode response: '' @ err)
                   | Inr follows \<Rightarrow> Inr follows)))"

definition FetchMods :: "Fetcher \<Rightarrow> string \<Rightarrow> string + Mod list" where
  "FetchMods f username =
     (let url = ''https://tools.2807.eu/api/getmods/'' @ username
      in case NewRequestWithContext f url of
           Some err \<Rightarrow> Inl (''failed to create request: '' @ err)
         | None \<Rightarrow>
            (case client_Do f url of
               Inl err \<Rightarrow> Inl (''failed to fetch mods: '' @ err)
             | Inr resp \<Rightarrow>
                if StatusCode resp \<noteq> StatusOK then
                  (if StatusCode resp = StatusBadRequest
                     then Inl ''the user does not have any moderators on their channel''
                   else if StatusCode resp = StatusNotFound
                     then Inl ''user not found''
                   else Inl (''unexpected status code: '' @ Itoa (StatusCode resp)))
                else
                  (case Decode_Mods f (Body resp) of
                     Inl err \<Rightarrow> Inl (''failed to decode response: '' @ err)
                   | Inr mods \<Rightarrow> Inr mods)))"

definition FetchVips :: "Fetcher \<Rightarrow> string \<Rightarrow> string + Vip list" where
  "FetchVips f username =
     (let url = ''https://tools.2807.eu/api/getvips/'' @ username
      in case NewRequestWithContext f url of
           Some err \<Rightarrow> Inl (''failed to create request: '' @ err)
         | None \<Rightarrow>
            (case client_Do f url of
               Inl err \<Rightarrow> Inl (''failed to fetch vips: '' @ err)
             | Inr resp \<Rightarrow>
                if StatusCode resp \<noteq> StatusOK then
                  (if StatusCode resp = StatusBadRequest
                     then Inl ''the user does not have any VIPs on their channel''
                   else if StatusCode resp = StatusNotFound
                     then Inl ''user not found''
                   else Inl (''unexpected status code: '' @ Itoa (StatusCode resp)))
                else
                  (case Decode_Vips f (Body resp) of
                     Inl err \<Rightarrow> Inl (''failed to decode response: '' @ err)
                   | Inr vips \<Rightarrow> Inr vips)))"

definition FetchFounders :: "Fetcher \<Rightarrow> string \<Rightarrow> string + Founders list" where
  "FetchFounders f username =
     (let url = ''https://tools.2807.eu/api/getfounders/'' @ username
      in case NewRequestWithContext f url of
           Some err \<Rightarrow> Inl (''failed to create request: '' @ err)
         | None \<Rightarrow>
            (case client_Do f url of
               Inl err \<Rightarrow> Inl (''failed to fetch founders: '' @ err)
             | Inr resp \<Rightarrow>
                if StatusCode resp \<noteq> StatusOK then
                  (if StatusCode resp = StatusBadRequest
                     then Inl ''the user does not have any founders on their channel''
                   else if StatusCode resp = StatusNotFound
                     then Inl ''user not found''
                   else Inl (''unexpected status code: '' @ Itoa (StatusCode resp)))
                else
                  (case Decode_Founders f (Body resp) of
                     Inl err \<Rightarrow> Inl (''failed to decode response: '' @ err)
                   | Inr founders \<Rightarrow> Inr founders)))"

text \<open>
  The request for a URL is built and sent, and a response comes back.
\<close>

definition responds :: "Fetcher \<Rightarrow> string \<Rightarrow> Response \<Rightarrow> bool" where
  "responds f url resp \<longleftrightarrow> NewRequestWithContext f url = None \<and> client_Do f url = Inr resp"

text \<open>
  A network that answers every request with the same status code and a body that is not
  JSON: the concrete input of the checks below.
\<close>

definition stub_fetcher :: "int \<Rightarrow> Fetcher" where
  "stub_fetcher code =
     \<lparr>NewRequestWithContext = (\<lambda>url. None),
      client_Do = (\<lambda>url. Inr \<lparr>StatusCode = code, Body = ''oops''\<rparr>),
      Decode_Follows = (\<lambda>body. Inl ''invalid character''),
      Decode_Mods = (\<lambda>body. Inl ''invalid character''),
      Decode_Vips = (\<lambda>body. Inl ''invalid character''),
      Decode_Founders = (\<lambda>body. Inl ''invalid character'')\<rparr>"

section \<open>Configuration\<close>

text \<open>
  The process environment is a map from names to values; \<^verbatim>\<open>os.Getenv\<close> gives the empty
  string for a name that is not set. \<^verbatim>\<open>godotenv.Load()\<close> is a library call: it reads
  the file \<^verbatim>\<open>.env\<close> of the working directory and fails when the file cannot be opened
  or parsed; otherwise it sets every variable of the file that the environment does not
  define yet, and overrides none. The file is given as what reading it answers: an error
  or the variables it holds (with names and values that \<^verbatim>\<open>os.Setenv\<close> accepts).
\<close>

type_synonym Env = "string \<rightharpoonup> string"

definition Getenv :: "Env \<Rightarrow> string \<Rightarrow> string" where
  "Getenv env key = (case env key of None \<Rightarrow> [] | Some v \<Rightarrow> v)"

definition godotenv_Load :: "string + Env \<Rightarrow> Env \<Rightarrow> string + Env" where
  "godotenv_Load file env =
     (case file of Inl err \<Rightarrow> Inl err | Inr envMap \<Rightarrow> Inr (envMap ++ env))"

record Config =
  TelegramToken :: string

definition validate :: "Config \<Rightarrow> string option" where
  "validate c = (if TelegramToken c = [] then Some ''TELEGRAM_TOKEN is required'' else None)"

definition Load :: "string + Env \<Rightarrow> Env \<Rightarrow> string + Config" where
  "Load file env =
     (case godotenv_Load file env of
        Inl err \<Rightarrow> Inl err
      | Inr env' \<Rightarrow>
         (let cfg = \<lparr>TelegramToken = Getenv env' ''TELEGRAM_TOKEN''\<rparr>
          in case validate cfg of Some err \<Rightarrow> Inl err | None \<Rightarrow> Inr cfg))"

text \<open>
  The specification's condition: the token is available, set in the process environment
  or supplied by the environment file.
\<close>

definition token_available :: "string + Env \<Rightarrow> Env \<Rightarrow> bool" where
  "token_available file env \<longleftrightarrow>
     Getenv env ''TELEGRAM_TOKEN'' \<noteq> [] \<or>
     (case file of Inl err \<Rightarrow> False | Inr envMap \<Rightarrow> Getenv envMap ''TELEGRAM_TOKEN'' \<noteq> [])"

section \<open>The conversation controller\<close>

text \<open>
  The parts of a Telegram update the controller reads. A pointer that may be nil is an
  option: the sender \<^verbatim>\<open>From\<close> of a message and the message of a callback query are
  optional in the Bot API. \<^verbatim>\<open>Message_From\<close> and \<^verbatim>\<open>Message_Chat\<close> hold the identifiers
  \<^verbatim>\<open>From.ID\<close> and \<^verbatim>\<open>Chat.ID\<close> (plain \<^verbatim>\<open>int64\<close> values, never computed with), and
  \<^verbatim>\<open>Message_Command\<close> is \<open>Some c\<close> when \<^verbatim>\<open>IsCommand()\<close> holds, \<open>c\<close> being what
  \<^verbatim>\<open>Command()\<close> returns.
\<close>

record Message =
  Message_From :: "int option"
  Message_Chat :: int
  Message_Text :: string
  Message_Command :: "string option"

record CallbackQuery =
  CallbackQuery_ID :: string
  CallbackQuery_Data :: string
  CallbackQuery_Message :: "Message option"

record Update =
  Update_CallbackQuery :: "CallbackQuery option"
  Update_Message :: "Message option"

definition IsCommand :: "Message \<Rightarrow> bool" where
  "IsCommand m = (Message_Command m \<noteq> None)"

definition Command :: "Message \<Rightarrow> string" where
  "Command m = (case Message_Command m of None \<Rightarrow> [] | Some c \<Rightarrow> c)"

text \<open>
  What the controller does to the outside is a list of events, in order: the requests it
  makes to the Telegram API, the calls of the fetcher, and the fatal log line. Whether a
  request to the API fails changes only what is logged, so failures of the API are left
  out.
\<close>

record MessageConfig =
  ChatID :: int
  Text :: string
  ParseMode :: string
  DisableWebPagePreview :: bool
  ReplyMarkup :: "(string \<times> string) list list"

datatype Event =
    Request_Callback string string
  | Send MessageConfig
  | Call_FetchFollows string
  | Call_FetchMods string
  | Call_FetchVips string
  | Call_FetchFounders string
  | Log_Fatal string

definition NewMessage :: "int \<Rightarrow> string \<Rightarrow> MessageConfig" where
  "NewMessage chatID text =
     \<lparr>ChatID = chatID, Text = text, ParseMode = [], DisableWebPagePreview = False,
      ReplyMarkup = []\<rparr>"

definition ModeHTML :: string where
  "ModeHTML = ''HTML''"

definition telegramMessageLimit :: int where
  "telegramMessageLimit = 4096"

text \<open>A call returns, or panics with a message.\<close>

datatype 'a Outcome = Panic string | Return 'a

definition nil_dereference :: string where
  "nil_dereference = ''runtime error: invalid memory address or nil pointer dereference''"

record UserState =
  AwaitingUsername :: bool
  PressedButton :: string

text \<open>The interface \<^verbatim>\<open>Fetcher\<close> of package \<^verbatim>\<open>bot\<close>: four functions of the user name.\<close>

record BotFetcher =
  Fetcher_FetchFollows :: "string \<Rightarrow> string + Follow list"
  Fetcher_FetchMods :: "string \<Rightarrow> string + Mod list"
  Fetcher_FetchVips :: "string \<Rightarrow> string + Vip list"
  Fetcher_FetchFounders :: "string \<Rightarrow> string + Founders list"

text \<open>A view makes requests to the API and returns an error or none, unless it panics.\<close>

type_synonym ViewFunc = "Update \<Rightarrow> Event list \<times> string option Outcome"

record Bot =
  cmdViewMap :: "string \<rightharpoonup> ViewFunc"
  userState :: "int \<rightharpoonup> UserState"
  fetcher :: BotFetcher

definition New :: "BotFetcher \<Rightarrow> Bot" where
  "New f = \<lparr>cmdViewMap = Map.empty, userState = Map.empty, fetcher = f\<rparr>"

definition RegisterCommand :: "Bot \<Rightarrow> string \<Rightarrow> ViewFunc \<Rightarrow> Bot" where
  "RegisterCommand b name view = b\<lparr>cmdViewMap := (cmdViewMap b)(name \<mapsto> view)\<rparr>"

text \<open>
  The view of the start command sends the menu: the message \<open>msg\<close> it builds, with the
  inline keyboard of four buttons, each a label and the data it carries.
\<close>

definition ViewCmdStart_msg :: "int \<Rightarrow> MessageConfig" where
  "ViewCmdStart_msg chatID =
     (NewMessage chatID ''Select the option:'')
       \<lparr>ReplyMarkup :=
          [[(''follows'', ''follows''), (''moders'', ''moders'')],
           [(''vips'', ''vips''), (''founders'', ''founders'')]]\<rparr>"

definition ViewCmdStart :: ViewFunc where
  "ViewCmdStart update =
     (case Update_Message update of
        None \<Rightarrow> ([], Panic nil_dereference)
      | Some m \<Rightarrow> ([Send (ViewCmdStart_msg (Message_Chat m))], Return None))"

definition sendStartKeyboard :: "Update \<Rightarrow> Event list \<times> unit Outcome" where
  "sendStartKeyboard update =
     (case ViewCmdStart update of
        (evs, Panic p) \<Rightarrow> (evs, Panic p)
      | (evs, Return err) \<Rightarrow> (evs, Return ()))"

definition sendError :: "int \<Rightarrow> string \<Rightarrow> string \<Rightarrow> Event list" where
  "sendError chatID message err = [Send (NewMessage chatID (message @ '': '' @ err @ ''.''))]"

definition isAwaitingUsername :: "Bot \<Rightarrow> int \<Rightarrow> bool" where
  "isAwaitingUsername b chatID =
     (case userState b chatID of None \<Rightarrow> False | Some state \<Rightarrow> AwaitingUsername state)"

text \<open>
  \<^verbatim>\<open>processRequest\<close> returns a pair, as in Go: the response and the error, if any.
\<close>

definition processRequest :: "Bot \<Rightarrow> string \<Rightarrow> string \<Rightarrow> Event list \<times> string \<times> string option" where
  "processRequest b username button =
     (if button = ''follows'' then
        (case Fetcher_FetchFollows (fetcher b) username of
           Inl err \<Rightarrow> ([Call_FetchFollows username], [], Some err)
         | Inr follows \<Rightarrow> ([Call_FetchFollows username], FormatFollows username follows, None))
      else if button = ''moders'' then
        (case Fetcher_FetchMods (fetcher b) username of
           Inl err \<Rightarrow> ([Call_FetchMods username], [], Some err)
         | Inr mods \<Rightarrow> ([Call_FetchMods username], FormatMods username mods, None))
      else if button = ''vips'' then
        (case Fetcher_FetchVips (fetcher b) username of
           Inl err \<Rightarrow> ([Call_FetchVips username], [], Some err)
         | Inr vips \<Rightarrow> ([Call_FetchVips username], FormatVips username vips, None))
      else if button = ''founders'' then
        (case Fetcher_FetchFounders (fetcher b) username of
           Inl err \<Rightarrow> ([Call_FetchFounders username], [], Some err)
         | Inr founders \<Rightarrow>
             ([Call_FetchFounders username], FormatFounders username founders, None))
      else ([], [], Some (''unknown button: '' @ button)))"

definition handleCallback :: "Bot \<Rightarrow> CallbackQuery \<Rightarrow> Event list \<times> Bot Outcome" where
  "handleCallback b callback =
     (let cb = [Request_Callback (CallbackQuery_ID callback) (CallbackQuery_Data callback)]
      in case CallbackQuery_Message callback of
           None \<Rightarrow> (cb, Panic nil_dereference)
         | Some m \<Rightarrow>
            (cb @ [Send (NewMessage (Message_Chat m) ''Enter the channel name:'')],
             Return (b\<lparr>userState := (userState b)(Message_Chat m \<mapsto>
               \<lparr>AwaitingUsername = True, PressedButton = CallbackQuery_Data callback\<rparr>)\<rparr>)))"

definition handleCommand :: "Bot \<Rightarrow> Update \<Rightarrow> Event list \<times> Bot Outcome" where
  "handleCommand b update =
     (case Update_Message update of
        None \<Rightarrow> ([], Panic nil_dereference)
      | Some m \<Rightarrow>
         (case cmdViewMap b (Command m) of
            None \<Rightarrow>
              (case sendStartKeyboard update of
                 (evs, Panic p) \<Rightarrow>
                   (Send (NewMessage (Message_Chat m) ''Unknown command.'') # evs, Panic p)
               | (evs, Return u) \<Rightarrow>
                   (Send (NewMessage (Message_Chat m) ''Unknown command.'') # evs, Return b))
          | Some cmdView \<Rightarrow>
              (case cmdView update of
                 (evs, Panic p) \<Rightarrow> (evs, Panic p)
               | (evs, Return err) \<Rightarrow> (evs, Return b))))"

definition handleUserInput :: "Bot \<Rightarrow> Update \<Rightarrow> Event list \<times> Bot Outcome" where
  "handleUserInput b update =
     (case Update_Message update of
        None \<Rightarrow> ([], Panic nil_dereference)
      | Some m \<Rightarrow>
         (case Message_From m of
            None \<Rightarrow> ([], Panic nil_dereference)
          | Some from_ID \<Rightarrow>
             (let username = Message_Text m;
                  state = (case userState b from_ID of
                             None \<Rightarrow> \<lparr>AwaitingUsername = False, PressedButton = []\<rparr>
                           | Some s \<Rightarrow> s);
                  b' = b\<lparr>userState := (userState b)(Message_Chat m := None)\<rparr>
              in case processRequest b' username (PressedButton state) of
                   (fetched, response, Some err) \<Rightarrow>
                     (case sendStartKeyboard update of
                        (evs, Panic p) \<Rightarrow>
                          (fetched @ sendError (Message_Chat m) ''Failed to fetch data'' err @ evs,
                           Panic p)
                      | (evs, Return u) \<Rightarrow>
                          (fetched @ sendError (Message_Chat m) ''Failed to fetch data'' err @ evs,
                           Return b'))
                 | (fetched, response, None) \<Rightarrow>
                     (let messages = SplitMessage response telegramMessageLimit;
                          sent = map (\<lambda>part. Send ((NewMessage (Message_Chat m) part)
                                   \<lparr>ParseMode := ModeHTML, DisableWebPagePreview := True\<rparr>))
                                   messages
                      in case sendStartKeyboard update of
                           (evs, Panic p) \<Rightarrow> (fetched @ sent @ evs, Panic p)
                         | (evs, Return u) \<Rightarrow> (fetched @ sent @ evs, Return b')))))"

text \<open>
  \<^verbatim>\<open>handleUpdate\<close>: the dispatch, and the deferred function that recovers a panic and
  calls \<^verbatim>\<open>log.Fatalf\<close>, which writes the line and ends the process
  (\<^verbatim>\<open>os.Exit(1)\<close>). After an update the process has exited or is alive with its bot.
\<close>

datatype Process = Exited | Alive Bot

definition dispatch :: "Bot \<Rightarrow> Update \<Rightarrow> Event list \<times> Bot Outcome" where
  "dispatch b update =
     (case Update_CallbackQuery update of
        Some callback \<Rightarrow> handleCallback b callback
      | None \<Rightarrow>
         (case Update_Message update of
            None \<Rightarrow> ([], Return b)
          | Some m \<Rightarrow>
             (case Message_From m of
                None \<Rightarrow> ([], Panic nil_dereference)
              | Some from_ID \<Rightarrow>
                 if isAwaitingUsername b from_ID then handleUserInput b update
                 else if IsCommand m then handleCommand b update
                 else (case sendStartKeyboard update of
                         (evs, Panic p) \<Rightarrow> (evs, Panic p)
                       | (evs, Return u) \<Rightarrow> (evs, Return b)))))"

definition handleUpdate :: "Bot \<Rightarrow> Update \<Rightarrow> Event list \<times> Process" where
  "handleUpdate b update =
     (case dispatch b update of
        (evs, Panic p) \<Rightarrow> (evs @ [Log_Fatal (''panic recovered: '' @ p)], Exited)
      | (evs, Return b') \<Rightarrow> (evs, Alive b'))"

text \<open>
  \<^verbatim>\<open>Start\<close> handles the updates one at a time, in the order they arrive, until the
  context is done; the list is the updates that arrive before that. Nothing runs after
  the process has exited.
\<close>

fun Start :: "Bot \<Rightarrow> Update list \<Rightarrow> Event list \<times> Process" where
  "Start b [] = ([], Alive b)"
| "Start b (update # updates) =
     (case handleUpdate b update of
        (evs, Exited) \<Rightarrow> (evs, Exited)
      | (evs, Alive b') \<Rightarrow>
          (case Start b' updates of (evs', p) \<Rightarrow> (evs @ evs', p)))"

text \<open>
  Concrete inputs for the checks below: a fetcher that finds nothing, the bot as
  \<^verbatim>\<open>main\<close> builds it, a plain text message, the press of a button under a message of
  a chat, and the press of a button under a message sent through inline mode, which
  carries no message.
\<close>

definition no_data_fetcher :: BotFetcher where
  "no_data_fetcher =
     \<lparr>Fetcher_FetchFollows = (\<lambda>username. Inr []),
      Fetcher_FetchMods = (\<lambda>username. Inr []),
      Fetcher_FetchVips = (\<lambda>username. Inr []),
      Fetcher_FetchFounders = (\<lambda>username. Inr [])\<rparr>"

definition main_bot :: Bot where
  "main_bot = RegisterCommand (New no_data_fetcher) ''start'' ViewCmdStart"

definition text_message :: "int \<Rightarrow> int \<Rightarrow> string \<Rightarrow> Update" where
  "text_message from_ID chat_ID text =
     \<lparr>Update_CallbackQuery = None,
      Update_Message = Some \<lparr>Message_From = Some from_ID, Message_Chat = chat_ID,
        Message_Text = text, Message_Command = None\<rparr>\<rparr>"

definition button_press :: "string \<Rightarrow> int \<Rightarrow> Update" where
  "button_press data chat_ID =
     \<lparr>Update_CallbackQuery = Some
        \<lparr>CallbackQuery_ID = ''1'', CallbackQuery_Data = data,
         CallbackQuery_Message = Some \<lparr>Message_From = Some 7000, Message_Chat = chat_ID,
           Message_Text = ''Select the option:'', Message_Command = None\<rparr>\<rparr>,
      Update_Message = None\<rparr>"

definition inline_button_press :: "string \<Rightarrow> Update" where
  "inline_button_press data =
     \<lparr>Update_CallbackQuery = Some
        \<lparr>CallbackQuery_ID = ''1'', CallbackQuery_Data = data, CallbackQuery_Message = None\<rparr>,
      Update_Message = None\<rparr>"

section \<open>Trimming: the white-space table and what trimming leaves\<close>

text \<open>
  The facts about the table of white-space encodings are checked by evaluation: no
  encoding is a prefix or a suffix of another one, a newline occurs in none but its own,
  and the first byte of an encoding is never a later byte of one (UTF-8 is
  self-synchronising).
\<close>

lemma ws_seqs_nonempty: "w \<in> set ws_seqs \<Longrightarrow> w \<noteq> []"
  by (auto simp: ws_seqs_def)

lemma ws_prefix_free_table:
  "list_all (\<lambda>w. list_all (\<lambda>w'. prefix w' w \<longrightarrow> w' = w) ws_seqs) ws_seqs"
  by code_simp

lemma ws_suffix_free_table:
  "list_all (\<lambda>w. list_all (\<lambda>w'. suffix w' w \<longrightarrow> w' = w) ws_seqs) ws_seqs"
  by code_simp

lemma ws_tail_table:
  "list_all (\<lambda>w. newline \<notin> set (tl w) \<and> list_all (\<lambda>w'. hd w' \<notin> set (tl w)) ws_seqs) ws_seqs"
  by code_simp

lemma ws_butlast_table:
  "list_all (\<lambda>w. newline \<notin> set (butlast w)) ws_seqs"
  by code_simp

lemma ws_newline_table:
  "list_all (\<lambda>w. w = [newline] \<or> newline \<notin> set w) ws_seqs"
  by code_simp

lemma ws_seqs_prefix_free:
  "w \<in> set ws_seqs \<Longrightarrow> w' \<in> set ws_seqs \<Longrightarrow> prefix w' w \<Longrightarrow> w' = w"
  using ws_prefix_free_table by (simp add: list_all_iff)

lemma ws_seqs_suffix_free:
  "w \<in> set ws_seqs \<Longrightarrow> w' \<in> set ws_seqs \<Longrightarrow> suffix w' w \<Longrightarrow> w' = w"
  using ws_suffix_free_table by (simp add: list_all_iff)

lemma ws_seqs_tl_newline: "w \<in> set ws_seqs \<Longrightarrow> newline \<notin> set (tl w)"
  using ws_tail_table by (simp add: list_all_iff)

lemma ws_seqs_tl_hd: "w \<in> set ws_seqs \<Longrightarrow> w' \<in> set ws_seqs \<Longrightarrow> hd w' \<notin> set (tl w)"
  using ws_tail_table by (simp add: list_all_iff)

lemma ws_seqs_butlast_newline: "w \<in> set ws_seqs \<Longrightarrow> newline \<notin> set (butlast w)"
  using ws_butlast_table by (simp add: list_all_iff)

lemma ws_seqs_newline: "w \<in> set ws_seqs \<Longrightarrow> w = [newline] \<or> newline \<notin> set w"
  using ws_newline_table by (simp add: list_all_iff)

lemma ws_prefix_SomeD: "ws_prefix s = Some w \<Longrightarrow> w \<in> set ws_seqs \<and> prefix w s"
  by (auto simp: ws_prefix_def find_Some_iff)

lemma ws_suffix_SomeD: "ws_suffix s = Some w \<Longrightarrow> w \<in> set ws_seqs \<and> suffix w s"
  by (auto simp: ws_suffix_def find_Some_iff)

lemma ws_prefix_None_iff: "ws_prefix s = None \<longleftrightarrow> (\<forall>w\<in>set ws_seqs. \<not> prefix w s)"
  by (auto simp: ws_prefix_def find_None_iff)

lemma ws_suffix_None_iff: "ws_suffix s = None \<longleftrightarrow> (\<forall>w\<in>set ws_seqs. \<not> suffix w s)"
  by (auto simp: ws_suffix_def find_None_iff)

lemma ws_prefix_append:
  assumes "w \<in> set ws_seqs"
  shows "ws_prefix (w @ s) = Some w"
proof (cases "ws_prefix (w @ s)")
  case None
  with assms show ?thesis by (auto simp: ws_prefix_None_iff)
next
  case (Some v)
  then have v: "v \<in> set ws_seqs" and "prefix v (w @ s)"
    using ws_prefix_SomeD by blast+
  then have "prefix v w \<or> prefix w v"
    using prefix_same_cases [of v "w @ s" w] by auto
  with v assms have "v = w"
    using ws_seqs_prefix_free by blast
  with Some show ?thesis by simp
qed

lemma ws_suffix_append:
  assumes "w \<in> set ws_seqs"
  shows "ws_suffix (s @ w) = Some w"
proof (cases "ws_suffix (s @ w)")
  case None
  with assms have "\<not> suffix w (s @ w)" by (simp add: ws_suffix_None_iff)
  then show ?thesis by (simp add: suffix_def)
next
  case (Some v)
  then have v: "v \<in> set ws_seqs" and "suffix v (s @ w)"
    using ws_suffix_SomeD by blast+
  then have "suffix v w \<or> suffix w v"
    using suffix_same_cases [of v "s @ w" w] by (simp add: suffix_def)
  with v assms have "v = w"
    using ws_seqs_suffix_free by blast
  with Some show ?thesis by simp
qed

lemma ws_prefix_Nil [simp]: "ws_prefix [] = None"
  by (auto simp: ws_prefix_None_iff dest: ws_seqs_nonempty)

lemma ws_suffix_Nil [simp]: "ws_suffix [] = None"
  by (auto simp: ws_suffix_None_iff dest: ws_seqs_nonempty)

lemma TrimLeft_fix: "ws_prefix s = None \<Longrightarrow> TrimLeft s = s"
  by (simp add: TrimLeft.simps)

lemma TrimRight_fix: "ws_suffix s = None \<Longrightarrow> TrimRight s = s"
  by (simp add: TrimRight.simps)

lemma TrimLeft_Nil [simp]: "TrimLeft [] = []"
  by (simp add: TrimLeft_fix)

lemma TrimRight_Nil [simp]: "TrimRight [] = []"
  by (simp add: TrimRight_fix)

lemma TrimSpace_Nil [simp]: "TrimSpace [] = []"
  by (simp add: TrimSpace_def)

lemma TrimLeft_ws: "w \<in> set ws_seqs \<Longrightarrow> TrimLeft (w @ s) = TrimLeft s"
  by (subst TrimLeft.simps) (simp add: ws_prefix_append)

lemma TrimRight_ws: "w \<in> set ws_seqs \<Longrightarrow> TrimRight (s @ w) = TrimRight s"
  by (subst TrimRight.simps) (simp add: ws_suffix_append)

lemma ws_prefix_TrimLeft [simp]: "ws_prefix (TrimLeft s) = None"
proof (induction s rule: TrimLeft.induct)
  case (1 s)
  show ?case
  proof (cases "ws_prefix s")
    case None
    then show ?thesis by (simp add: TrimLeft_fix)
  next
    case (Some w)
    with 1 show ?thesis by (subst TrimLeft.simps) simp
  qed
qed

lemma ws_suffix_TrimRight [simp]: "ws_suffix (TrimRight s) = None"
proof (induction s rule: TrimRight.induct)
  case (1 s)
  show ?case
  proof (cases "ws_suffix s")
    case None
    then show ?thesis by (simp add: TrimRight_fix)
  next
    case (Some w)
    with 1 show ?thesis by (subst TrimRight.simps) simp
  qed
qed

lemma TrimRight_prefix: "prefix (TrimRight s) s"
proof (induction s rule: TrimRight.induct)
  case (1 s)
  show ?case
  proof (cases "ws_suffix s")
    case None
    then show ?thesis by (simp add: TrimRight_fix)
  next
    case (Some w)
    with 1 have "prefix (TrimRight (take (length s - length w) s)) (take (length s - length w) s)"
      by simp
    then have "prefix (TrimRight (take (length s - length w) s)) s"
      using take_is_prefix prefix_order.trans by blast
    with Some show ?thesis by (subst TrimRight.simps) simp
  qed
qed

lemma TrimLeft_suffix: "suffix (TrimLeft s) s"
proof (induction s rule: TrimLeft.induct)
  case (1 s)
  show ?case
  proof (cases "ws_prefix s")
    case None
    then show ?thesis by (simp add: TrimLeft_fix)
  next
    case (Some w)
    with 1 have "suffix (TrimLeft (drop (length w) s)) (drop (length w) s)"
      by simp
    then have "suffix (TrimLeft (drop (length w) s)) s"
      using suffix_drop suffix_order.trans by blast
    with Some show ?thesis by (subst TrimLeft.simps) simp
  qed
qed

text \<open>A string is trimmed when it neither starts nor ends with white space.\<close>

lemma ws_prefix_TrimSpace [simp]: "ws_prefix (TrimSpace s) = None"
proof -
  have "prefix (TrimSpace s) (TrimLeft s)"
    by (simp add: TrimSpace_def TrimRight_prefix)
  moreover have "\<forall>w\<in>set ws_seqs. \<not> prefix w (TrimLeft s)"
    using ws_prefix_TrimLeft [of s] by (simp only: ws_prefix_None_iff)
  ultimately show ?thesis
    unfolding ws_prefix_None_iff using prefix_order.trans by blast
qed

lemma ws_suffix_TrimSpace [simp]: "ws_suffix (TrimSpace s) = None"
  by (simp add: TrimSpace_def)

lemma TrimSpace_fix: "ws_prefix s = None \<Longrightarrow> ws_suffix s = None \<Longrightarrow> TrimSpace s = s"
  by (simp add: TrimSpace_def TrimLeft_fix TrimRight_fix)

lemma TrimSpace_idem [simp]: "TrimSpace (TrimSpace s) = TrimSpace s"
  by (simp add: TrimSpace_fix)

text \<open>
  White space does not appear where two strings meet: a string that does not start with
  white space still does not when a newline, or a white-space rune, is put after it.
\<close>

lemma ws_prefix_cross:
  assumes none: "ws_prefix s = None" and ne: "s \<noteq> []"
    and c: "\<forall>w\<in>set ws_seqs. c \<notin> set (tl w)"
  shows "ws_prefix (s @ c # t) = None"
proof (rule ccontr)
  assume "ws_prefix (s @ c # t) \<noteq> None"
  then obtain w where w: "w \<in> set ws_seqs" and p: "prefix w (s @ c # t)"
    by (auto simp: ws_prefix_None_iff)
  from none w have np: "\<not> prefix w s"
    by (simp add: ws_prefix_None_iff)
  with p obtain us where us: "w = s @ us" "prefix us (c # t)"
    by (auto simp: prefix_append)
  with np have "us \<noteq> []" by auto
  with us obtain us' where "us = c # us'"
    by (cases us) auto
  with us ne have "c \<in> set (tl w)"
    by (cases s) auto
  with c w show False by blast
qed

lemma ws_suffix_cross:
  assumes none: "ws_suffix t = None" and ne: "t \<noteq> []"
    and c: "\<forall>w\<in>set ws_seqs. c \<notin> set (butlast w)"
  shows "ws_suffix (s @ c # t) = None"
proof (rule ccontr)
  assume "ws_suffix (s @ c # t) \<noteq> None"
  then obtain w where w: "w \<in> set ws_seqs" and p: "suffix w (s @ c # t)"
    by (auto simp: ws_suffix_None_iff)
  from none w have np: "\<not> suffix w t"
    by (simp add: ws_suffix_None_iff)
  from p have "suffix w ((s @ [c]) @ t)" by simp
  with np obtain us where us: "w = us @ t" "suffix us (s @ [c])"
    unfolding suffix_append by blast
  with np have "us \<noteq> []" by auto
  with us obtain us' where "us = us' @ [c]"
    by (cases us rule: rev_cases) auto
  with us ne have "c \<in> set (butlast w)"
    by (simp add: butlast_append)
  with c w show False by blast
qed

lemma trimmed_join:
  assumes "ws_prefix a = None" "ws_suffix a = None" "a \<noteq> []"
    and "ws_prefix b = None" "ws_suffix b = None" "b \<noteq> []"
  shows "ws_prefix (a @ newline # b) = None \<and> ws_suffix (a @ newline # b) = None"
  using assms ws_prefix_cross [of a newline b] ws_suffix_cross [of b newline a]
    ws_seqs_tl_newline ws_seqs_butlast_newline by blast

lemma TrimLeft_all_ws: "TrimLeft s = [] \<Longrightarrow> TrimLeft (s @ t) = TrimLeft t"
proof (induction s rule: TrimLeft.induct)
  case (1 s)
  show ?case
  proof (cases "ws_prefix s")
    case None
    with 1 show ?thesis by (simp add: TrimLeft_fix)
  next
    case (Some w)
    then have w: "w \<in> set ws_seqs" and "prefix w s"
      using ws_prefix_SomeD by blast+
    then obtain r where s: "s = w @ r" by (auto simp: prefix_def)
    from 1(2) Some have "TrimLeft (drop (length w) s) = []"
      by (subst (asm) TrimLeft.simps) simp
    with 1(1) [OF Some] have "TrimLeft (r @ t) = TrimLeft t"
      using s by simp
    with w s show ?thesis by (simp add: TrimLeft_ws)
  qed
qed

lemma TrimLeft_append:
  assumes c: "\<forall>w\<in>set ws_seqs. c \<notin> set (tl w)"
  shows "TrimLeft s \<noteq> [] \<Longrightarrow> TrimLeft (s @ c # t) = TrimLeft s @ c # t"
proof (induction s rule: TrimLeft.induct)
  case (1 s)
  show ?case
  proof (cases "ws_prefix s")
    case None
    with 1(2) have "s \<noteq> []" by (simp add: TrimLeft_fix)
    with None c have "ws_prefix (s @ c # t) = None"
      using ws_prefix_cross by blast
    with None show ?thesis by (simp add: TrimLeft_fix)
  next
    case (Some w)
    then have w: "w \<in> set ws_seqs" and "prefix w s"
      using ws_prefix_SomeD by blast+
    then obtain r where s: "s = w @ r" by (auto simp: prefix_def)
    from 1(2) Some have "TrimLeft (drop (length w) s) \<noteq> []"
      by (subst (asm) TrimLeft.simps) simp
    with 1(1) [OF Some] have "TrimLeft (r @ c # t) = TrimLeft r @ c # t"
      using s by simp
    with w s show ?thesis by (simp add: TrimLeft_ws)
  qed
qed

lemma TrimSpace_ws_left: "w \<in> set ws_seqs \<Longrightarrow> TrimSpace (w @ s) = TrimSpace s"
  by (simp add: TrimSpace_def TrimLeft_ws)

lemma TrimSpace_ws_right:
  assumes w: "w \<in> set ws_seqs"
  shows "TrimSpace (s @ w) = TrimSpace s"
proof (cases "TrimLeft s = []")
  case True
  then have "TrimLeft (s @ w) = TrimLeft w"
    by (rule TrimLeft_all_ws)
  also have "\<dots> = []"
    using TrimLeft_ws [OF w, of "[]"] by simp
  finally show ?thesis using True by (simp add: TrimSpace_def)
next
  case False
  from w have "w \<noteq> []"
    by (rule ws_seqs_nonempty)
  then obtain c r where cr: "w = c # r"
    by (cases w) auto
  with w have "\<forall>v\<in>set ws_seqs. c \<notin> set (tl v)"
    using ws_seqs_tl_hd [of _ w] by auto
  from TrimLeft_append [OF this False, of r]
  have "TrimLeft (s @ w) = TrimLeft s @ w" using cr by simp
  with w show ?thesis by (simp add: TrimSpace_def TrimRight_ws)
qed

section \<open>Splitting into lines\<close>

lemma Split_newline_nonempty [simp]: "Split_newline s \<noteq> []"
  by (cases s) (simp_all add: Let_def)

lemma Split_newline_no_newline: "newline \<notin> set s \<Longrightarrow> Split_newline s = [s]"
  by (induction s) (auto simp: Let_def)

lemma Split_newline_append:
  "Split_newline (a @ newline # b) = Split_newline a @ Split_newline b"
proof (induction a)
  case Nil
  show ?case by simp
next
  case (Cons c a)
  then show ?case
    by (cases "Split_newline a") (simp_all add: Let_def)
qed

lemma Split_newline_lines: "l \<in> set (Split_newline s) \<Longrightarrow> newline \<notin> set l"
proof (induction s arbitrary: l)
  case Nil
  then show ?case by simp
next
  case (Cons c s)
  then show ?case
    by (cases "Split_newline s") (auto simp: Let_def split: if_splits)
qed

lemma Split_newline_prepend:
  "newline \<notin> set w \<Longrightarrow>
   Split_newline (w @ s) = (w @ hd (Split_newline s)) # tl (Split_newline s)"
  by (induction w) (auto simp: Let_def)

lemma Split_newline_postpend:
  "newline \<notin> set w \<Longrightarrow>
   Split_newline (s @ w) = butlast (Split_newline s) @ [last (Split_newline s) @ w]"
proof (induction s)
  case Nil
  then show ?case by (simp add: Split_newline_no_newline)
next
  case (Cons c s)
  then show ?case
    by (cases "Split_newline s") (auto simp: Let_def)
qed

lemma nonblank_lines_ws_left:
  assumes w: "w \<in> set ws_seqs"
  shows "nonblank_lines (w @ s) = nonblank_lines s"
proof (cases "w = [newline]")
  case True
  then show ?thesis by (simp add: nonblank_lines_def Let_def)
next
  case False
  with w have "newline \<notin> set w"
    using ws_seqs_newline by blast
  then have "Split_newline (w @ s) = (w @ hd (Split_newline s)) # tl (Split_newline s)"
    by (rule Split_newline_prepend)
  moreover have "Split_newline s = hd (Split_newline s) # tl (Split_newline s)"
    by simp
  ultimately show ?thesis
    using w unfolding nonblank_lines_def
    by (metis (no_types, lifting) TrimSpace_ws_left filter.simps(2) list.simps(9))
qed

lemma filter_map_butlast_last:
  "xs \<noteq> [] \<Longrightarrow>
   filter P (map f xs) = filter P (map f (butlast xs)) @ filter P [f (last xs)]"
  by (cases xs rule: rev_cases) auto

lemma nonblank_lines_ws_right:
  assumes w: "w \<in> set ws_seqs"
  shows "nonblank_lines (s @ w) = nonblank_lines s"
proof (cases "w = [newline]")
  case True
  have "Split_newline (s @ newline # []) = Split_newline s @ Split_newline []"
    by (rule Split_newline_append)
  with True show ?thesis by (simp add: nonblank_lines_def)
next
  case False
  with w have "newline \<notin> set w"
    using ws_seqs_newline by blast
  then have 1: "Split_newline (s @ w) = butlast (Split_newline s) @ [last (Split_newline s) @ w]"
    by (rule Split_newline_postpend)
  have "nonblank_lines (s @ w) =
        filter (\<lambda>l. l \<noteq> []) (map TrimSpace (butlast (Split_newline s))) @
        filter (\<lambda>l. l \<noteq> []) [TrimSpace (last (Split_newline s))]"
    unfolding nonblank_lines_def 1 using w by (simp add: TrimSpace_ws_right)
  also have "\<dots> = nonblank_lines s"
    unfolding nonblank_lines_def
    by (rule filter_map_butlast_last [symmetric]) simp
  finally show ?thesis .
qed

lemma nonblank_lines_TrimLeft: "nonblank_lines (TrimLeft s) = nonblank_lines s"
proof (induction s rule: TrimLeft.induct)
  case (1 s)
  show ?case
  proof (cases "ws_prefix s")
    case None
    then show ?thesis by (simp add: TrimLeft_fix)
  next
    case (Some w)
    then have w: "w \<in> set ws_seqs" and "prefix w s"
      using ws_prefix_SomeD by blast+
    then obtain r where s: "s = w @ r" by (auto simp: prefix_def)
    with 1 [OF Some] have "nonblank_lines (TrimLeft r) = nonblank_lines r" by simp
    with w s show ?thesis by (simp add: TrimLeft_ws nonblank_lines_ws_left)
  qed
qed

lemma nonblank_lines_TrimRight: "nonblank_lines (TrimRight s) = nonblank_lines s"
proof (induction s rule: TrimRight.induct)
  case (1 s)
  show ?case
  proof (cases "ws_suffix s")
    case None
    then show ?thesis by (simp add: TrimRight_fix)
  next
    case (Some w)
    then have w: "w \<in> set ws_seqs" and "suffix w s"
      using ws_suffix_SomeD by blast+
    then obtain r where s: "s = r @ w" by (auto simp: suffix_def)
    with 1 [OF Some] have "nonblank_lines (TrimRight r) = nonblank_lines r" by simp
    with w s show ?thesis by (simp add: TrimRight_ws nonblank_lines_ws_right)
  qed
qed

lemma nonblank_lines_TrimSpace: "nonblank_lines (TrimSpace s) = nonblank_lines s"
  by (simp add: TrimSpace_def nonblank_lines_TrimRight nonblank_lines_TrimLeft)

section \<open>The chunker's loop\<close>

lemma set_TrimSpace: "set (TrimSpace s) \<subseteq> set s"
proof -
  have "set (TrimSpace s) \<subseteq> set (TrimLeft s)"
    unfolding TrimSpace_def by (rule set_mono_prefix) (rule TrimRight_prefix)
  also have "\<dots> \<subseteq> set s"
    by (rule set_mono_suffix) (rule TrimLeft_suffix)
  finally show ?thesis .
qed

lemma chunk_ok_TrimSpace: "chunk_ok limit c \<Longrightarrow> TrimSpace c = c"
  by (simp add: chunk_ok_def TrimSpace_fix)

lemma chunk_ok_line:
  assumes "newline \<notin> set l" and "TrimSpace l \<noteq> []"
  shows "chunk_ok limit (TrimSpace l)"
proof -
  from assms(1) have "newline \<notin> set (TrimSpace l)"
    using set_TrimSpace by blast
  with assms(2) show ?thesis
    by (simp add: chunk_ok_def Split_newline_no_newline)
qed

lemma chunk_ok_join:
  assumes c: "chunk_ok limit c" and l: "chunk_ok limit' l"
    and len: "int (length c) + int (length l) + 1 \<le> limit"
  shows "chunk_ok limit (c @ newline # l)"
proof -
  from c l have "ws_prefix (c @ newline # l) = None \<and> ws_suffix (c @ newline # l) = None"
    by (intro trimmed_join) (simp_all add: chunk_ok_def)
  moreover from c l have "[] \<notin> set (Split_newline (c @ newline # l))"
    by (simp add: Split_newline_append chunk_ok_def)
  ultimately show ?thesis
    using len by (simp add: chunk_ok_def)
qed

lemma SplitMessage_loop_inv:
  assumes "\<forall>l\<in>set ls. newline \<notin> set l"
    and "c = [] \<or> chunk_ok limit c"
    and "\<forall>x\<in>set r. chunk_ok limit x"
    and "SplitMessage_loop limit ls r c = (r', c')"
  shows "(c' = [] \<or> chunk_ok limit c') \<and> (\<forall>x\<in>set r'. chunk_ok limit x) \<and>
         flat r' c' = flat r c @ filter (\<lambda>l. l \<noteq> []) (map TrimSpace ls)"
  using assms
proof (induction ls arbitrary: r c)
  case Nil
  then show ?case by simp
next
  case (Cons l ls)
  let ?line = "TrimSpace l"
  from Cons.prems(1) have nl: "newline \<notin> set l" and rest: "\<forall>l\<in>set ls. newline \<notin> set l"
    by simp_all
  show ?case
  proof (cases "?line = []")
    case True
    with Cons.prems(4) have "SplitMessage_loop limit ls r c = (r', c')"
      by simp
    from Cons.IH [OF rest Cons.prems(2) Cons.prems(3) this] True
    show ?thesis by simp
  next
    case False
    with nl have ok: "chunk_ok limit ?line"
      by (rule chunk_ok_line)
    have sp: "Split_newline ?line = [?line]"
      using nl set_TrimSpace [of l] by (intro Split_newline_no_newline) blast
    show ?thesis
    proof (cases "int (length c) + int (length ?line) + 1 > limit \<and> c \<noteq> []")
      case flush: True
      with Cons.prems(2) have c: "chunk_ok limit c" by simp
      then have tc: "TrimSpace c = c" by (rule chunk_ok_TrimSpace)
      from Cons.prems(4) False flush tc
      have run: "SplitMessage_loop limit ls (r @ [c]) ?line = (r', c')"
        by (simp add: Let_def)
      have r: "\<forall>x\<in>set (r @ [c]). chunk_ok limit x"
        using Cons.prems(3) c by simp
      from Cons.IH [OF rest _ r run] ok
      have "(c' = [] \<or> chunk_ok limit c') \<and> (\<forall>x\<in>set r'. chunk_ok limit x) \<and>
            flat r' c' = flat (r @ [c]) ?line @ filter (\<lambda>l. l \<noteq> []) (map TrimSpace ls)"
        by simp
      moreover have "flat (r @ [c]) ?line = flat r c @ [?line]"
        using False flush sp by (simp add: flat_def)
      ultimately show ?thesis using False by simp
    next
      case keep: False
      show ?thesis
      proof (cases "c = []")
        case True
        with Cons.prems(4) False keep
        have run: "SplitMessage_loop limit ls r ?line = (r', c')"
          by (simp add: Let_def)
        from Cons.IH [OF rest _ Cons.prems(3) run] ok
        have "(c' = [] \<or> chunk_ok limit c') \<and> (\<forall>x\<in>set r'. chunk_ok limit x) \<and>
              flat r' c' = flat r ?line @ filter (\<lambda>l. l \<noteq> []) (map TrimSpace ls)"
          by simp
        moreover have "flat r ?line = flat r c @ [?line]"
          using False True sp by (simp add: flat_def)
        ultimately show ?thesis using False by simp
      next
        case ne: False
        with Cons.prems(2) have c: "chunk_ok limit c" by simp
        from keep ne have len: "int (length c) + int (length ?line) + 1 \<le> limit"
          by simp
        from Cons.prems(4) False keep ne
        have run: "SplitMessage_loop limit ls r (c @ newline # ?line) = (r', c')"
          by (simp add: Let_def)
        have ok': "chunk_ok limit (c @ newline # ?line)"
          using c ok len by (rule chunk_ok_join)
        from Cons.IH [OF rest _ Cons.prems(3) run] ok'
        have "(c' = [] \<or> chunk_ok limit c') \<and> (\<forall>x\<in>set r'. chunk_ok limit x) \<and>
              flat r' c' = flat r (c @ newline # ?line) @ filter (\<lambda>l. l \<noteq> []) (map TrimSpace ls)"
          by simp
        moreover have "flat r (c @ newline # ?line) = flat r c @ [?line]"
          using ne sp by (simp add: flat_def Split_newline_append)
        ultimately show ?thesis using False by simp
      qed
    qed
  qed
qed

text \<open>What the chunker returns: chunks that are all well formed and whose lines, in order, are
  the trimmed non-blank lines of the text.\<close>

lemma SplitMessage_chunks:
  "(\<forall>c\<in>set (SplitMessage text limit). chunk_ok limit c) \<and>
   concat (map Split_newline (SplitMessage text limit)) = nonblank_lines text"
proof -
  obtain r' c' where run: "SplitMessage_loop limit (Split_newline (TrimSpace text)) [] [] = (r', c')"
    by (cases "SplitMessage_loop limit (Split_newline (TrimSpace text)) [] []")
  have "\<forall>l\<in>set (Split_newline (TrimSpace text)). newline \<notin> set l"
    using Split_newline_lines by blast
  from SplitMessage_loop_inv [OF this _ _ run]
  have inv: "c' = [] \<or> chunk_ok limit c'" "\<forall>x\<in>set r'. chunk_ok limit x"
    "flat r' c' = nonblank_lines (TrimSpace text)"
    by (simp_all add: flat_def nonblank_lines_def)
  have "TrimSpace c' = c'"
    using inv(1) by (auto simp: chunk_ok_TrimSpace)
  then have res: "SplitMessage text limit = r' @ (if c' = [] then [] else [c'])"
    using run by (simp add: SplitMessage_def)
  show ?thesis
    using inv unfolding res by (auto simp: flat_def nonblank_lines_TrimSpace)
qed

section \<open>The chunker: claims\<close>

lemma Split_newline_Join_newline:
  "cs \<noteq> [] \<Longrightarrow> Split_newline (Join_newline cs) = concat (map Split_newline cs)"
proof (induction cs rule: Join_newline.induct)
  case 1
  then show ?case by simp
next
  case (2 x)
  show ?case by simp
next
  case (3 x y ys)
  then show ?case by (simp add: Split_newline_append)
qed

lemma nonblank_lines_TrimSpace_line: "l \<in> set (nonblank_lines text) \<Longrightarrow> TrimSpace l = l \<and> l \<noteq> []"
  by (auto simp: nonblank_lines_def)

lemma filter_nonblank_lines:
  "filter (\<lambda>l. TrimSpace l \<noteq> []) (nonblank_lines text) = nonblank_lines text"
  by (rule filter_True) (simp add: nonblank_lines_TrimSpace_line)

lemma SplitMessage_roundtrip_any:
  "filter (\<lambda>l. TrimSpace l \<noteq> []) (Split_newline (Join_newline (SplitMessage text limit)))
     = nonblank_lines text"
proof (cases "SplitMessage text limit = []")
  case True
  with SplitMessage_chunks [of "text" limit] have "nonblank_lines text = []" by simp
  with True show ?thesis by simp
next
  case False
  then have "Split_newline (Join_newline (SplitMessage text limit)) = nonblank_lines text"
    using SplitMessage_chunks [of "text" limit] by (simp add: Split_newline_Join_newline)
  then show ?thesis by (simp add: filter_nonblank_lines)
qed

text \<open>
  Claim C2. For every text and every limit that is at least the length of the longest
  trimmed line, the chunks joined with newlines, blank lines removed, are the lines of the
  text, each trimmed, blank lines removed: nothing is lost, duplicated or reordered. (The
  lemma above shows that the bound on the limit is not needed.)
\<close>

theorem SplitMessage_roundtrip:
  assumes "\<forall>l\<in>set (nonblank_lines text). int (length l) \<le> limit"
  shows "filter (\<lambda>l. TrimSpace l \<noteq> []) (Split_newline (Join_newline (SplitMessage text limit)))
     = nonblank_lines text"
  by (rule SplitMessage_roundtrip_any)

lemma nonblank_lines_example: "nonblank_lines '' a \<newline>\<newline>b  \<newline>xxxxxxxxxx'' = [''a'', ''b'', ''xxxxxxxxxx'']"
  by code_simp

lemma SplitMessage_example: "SplitMessage '' a \<newline>\<newline>b  \<newline>xxxxxxxxxx'' 10 = [''a\<newline>b'', ''xxxxxxxxxx'']"
  by code_simp

theorem SplitMessage_roundtrip_witness:
  "nonblank_lines '' a \<newline>\<newline>b  \<newline>xxxxxxxxxx'' = [''a'', ''b'', ''xxxxxxxxxx''] \<and>
   SplitMessage '' a \<newline>\<newline>b  \<newline>xxxxxxxxxx'' 10 = [''a\<newline>b'', ''xxxxxxxxxx''] \<and>
   filter (\<lambda>l. TrimSpace l \<noteq> [])
     (Split_newline (Join_newline (SplitMessage '' a \<newline>\<newline>b  \<newline>xxxxxxxxxx'' 10)))
     = [''a'', ''b'', ''xxxxxxxxxx'']"
proof -
  have h: "\<forall>l\<in>set (nonblank_lines '' a \<newline>\<newline>b  \<newline>xxxxxxxxxx''). int (length l) \<le> 10"
    by (simp add: nonblank_lines_example)
  from SplitMessage_roundtrip [OF h] show ?thesis
    by (simp add: nonblank_lines_example SplitMessage_example)
qed

text \<open>
  Claim C3. For every text and limit, every chunk is non-empty and not all white space;
  its lines are lines of the text, and the lines of all chunks, in order, are exactly the
  trimmed non-blank lines of the text, so no line is split across chunks; and a chunk is
  within the limit or is one single trimmed line that is longer than the limit. The lines
  a, (blank), b, xxxxxxxxxx with limit 5 give the two chunks a/b and xxxxxxxxxx.
\<close>

theorem SplitMessage_chunks_wellformed:
  "(\<forall>c\<in>set (SplitMessage text limit).
      c \<noteq> [] \<and> TrimSpace c \<noteq> [] \<and>
      set (Split_newline c) \<subseteq> set (nonblank_lines text) \<and>
      (int (length c) \<le> limit \<or>
       (limit < int (length c) \<and> c \<in> set (nonblank_lines text)))) \<and>
   concat (map Split_newline (SplitMessage text limit)) = nonblank_lines text \<and>
   SplitMessage ''a\<newline>\<newline>b\<newline>xxxxxxxxxx'' 5 = [''a\<newline>b'', ''xxxxxxxxxx'']"
proof (intro conjI ballI)
  show flat: "concat (map Split_newline (SplitMessage text limit)) = nonblank_lines text"
    using SplitMessage_chunks by blast
  show "SplitMessage ''a\<newline>\<newline>b\<newline>xxxxxxxxxx'' 5 = [''a\<newline>b'', ''xxxxxxxxxx'']"
    by code_simp
  fix c
  assume c: "c \<in> set (SplitMessage text limit)"
  then have ok: "chunk_ok limit c"
    using SplitMessage_chunks by blast
  then show "c \<noteq> []"
    by (simp add: chunk_ok_def)
  from ok show "TrimSpace c \<noteq> []"
    using chunk_ok_TrimSpace [of limit c] by (simp add: chunk_ok_def)
  from c have "set (Split_newline c) \<subseteq> set (concat (map Split_newline (SplitMessage text limit)))"
    by auto
  then show sub: "set (Split_newline c) \<subseteq> set (nonblank_lines text)"
    by (simp only: flat)
  show "int (length c) \<le> limit \<or> (limit < int (length c) \<and> c \<in> set (nonblank_lines text))"
  proof (cases "int (length c) \<le> limit")
    case True
    then show ?thesis by simp
  next
    case False
    with ok have "newline \<notin> set c"
      by (simp add: chunk_ok_def)
    then have "Split_newline c = [c]"
      by (rule Split_newline_no_newline)
    with sub False show ?thesis by simp
  qed
qed

theorem SplitMessage_chunks_wellformed_witness:
  "''xxxxxxxxxx'' \<in> set (SplitMessage ''a\<newline>\<newline>b\<newline>xxxxxxxxxx'' 5) \<and>
   TrimSpace ''xxxxxxxxxx'' \<noteq> [] \<and>
   (5::int) < int (length ''xxxxxxxxxx'') \<and>
   ''xxxxxxxxxx'' \<in> set (nonblank_lines ''a\<newline>\<newline>b\<newline>xxxxxxxxxx'')"
proof -
  have m: "''xxxxxxxxxx'' \<in> set (SplitMessage ''a\<newline>\<newline>b\<newline>xxxxxxxxxx'' 5)"
    using SplitMessage_chunks_wellformed [of "[]" 0] by simp
  with SplitMessage_chunks_wellformed [of "''a\<newline>\<newline>b\<newline>xxxxxxxxxx''" 5]
  show ?thesis by auto
qed

text \<open>
  Claim C10. For every limit, a text that is a sequence of white-space runes (newlines
  among them), the empty text included, gives no chunk.
\<close>

theorem SplitMessage_blank:
  assumes "set ws \<subseteq> set ws_seqs"
  shows "SplitMessage (concat ws) limit = []"
proof -
  from assms have "TrimLeft (concat ws) = []"
    by (induction ws) (simp_all add: TrimLeft_ws)
  then have "TrimSpace (concat ws) = []"
    by (simp add: TrimSpace_def)
  then show ?thesis
    by (simp add: SplitMessage_def)
qed

theorem SplitMessage_blank_witness:
  "set [[CHR 0x20], [CHR 0x0A], [CHR 0x09], [CHR 0xC2, CHR 0xA0], [CHR 0x0D], [CHR 0x0A]] \<subseteq> set ws_seqs \<and>
   SplitMessage [CHR 0x20, CHR 0x0A, CHR 0x09, CHR 0xC2, CHR 0xA0, CHR 0x0D, CHR 0x0A] 4096 = [] \<and>
   SplitMessage [] 4096 = []"
proof -
  have h: "set [[CHR 0x20], [CHR 0x0A], [CHR 0x09], [CHR 0xC2, CHR 0xA0], [CHR 0x0D], [CHR 0x0A]] \<subseteq> set ws_seqs"
    by (simp add: ws_seqs_def)
  have e: "set [] \<subseteq> set ws_seqs" by simp
  from SplitMessage_blank [OF h, of 4096] SplitMessage_blank [OF e, of 4096] h
  show ?thesis by simp
qed

section \<open>The formatter: claims\<close>

lemma upt_Suc_shift: "[Suc i..<Suc i + Suc n] = Suc i # [Suc (Suc i)..<Suc (Suc i) + n]"
  using upt_conv_Cons [of "Suc i" "Suc i + Suc n"] by (simp del: upt_Suc)

lemma FormatFollows_loop_eq:
  "FormatFollows_loop i follows response =
     response @ concat (map (\<lambda>(n, r). numbered_line n (Follow_Login r) (Follow_DisplayName r)
                               ''followed'' (Follow_FollowedAt r))
                        (zip [Suc i..<Suc i + length follows] follows))"
proof (induction follows arbitrary: i response)
  case Nil
  show ?case by simp
next
  case (Cons r follows)
  have "[Suc i..<Suc i + length (r # follows)] = Suc i # [Suc (Suc i)..<Suc (Suc i) + length follows]"
    using upt_Suc_shift [of i "length follows"] by simp
  then show ?case
    by (simp add: Cons.IH numbered_line_def channel_link_def add.commute del: upt_Suc)
qed

lemma FormatFollows_eq:
  "FormatFollows username follows =
     channel_link username username @ '' is following:\<newline>'' @
     concat (map (\<lambda>(n, r). numbered_line n (Follow_Login r) (Follow_DisplayName r)
                    ''followed'' (Follow_FollowedAt r))
             (zip [1..<Suc (length follows)] follows))"
  by (simp add: FormatFollows_def FormatFollows_loop_eq channel_link_def del: upt_Suc)

lemma FormatMods_loop_eq:
  "FormatMods_loop i mods response =
     response @ concat (map (\<lambda>(n, r). numbered_line n (Mod_Login r) (Mod_DisplayName r)
                               ''moded'' (Mod_GrantedAt r))
                        (zip [Suc i..<Suc i + length mods] mods))"
proof (induction mods arbitrary: i response)
  case Nil
  show ?case by simp
next
  case (Cons r mods)
  have "[Suc i..<Suc i + length (r # mods)] = Suc i # [Suc (Suc i)..<Suc (Suc i) + length mods]"
    using upt_Suc_shift [of i "length mods"] by simp
  then show ?case
    by (simp add: Cons.IH numbered_line_def channel_link_def add.commute del: upt_Suc)
qed

lemma FormatMods_eq:
  "FormatMods username mods =
     channel_link username username @ '''s list of channel moders:\<newline>'' @
     concat (map (\<lambda>(n, r). numbered_line n (Mod_Login r) (Mod_DisplayName r)
                    ''moded'' (Mod_GrantedAt r))
             (zip [1..<Suc (length mods)] mods))"
  by (simp add: FormatMods_def FormatMods_loop_eq channel_link_def del: upt_Suc)

lemma FormatVips_loop_eq:
  "FormatVips_loop i vips response =
     response @ concat (map (\<lambda>(n, r). numbered_line n (Vip_Login r) (Vip_DisplayName r)
                               ''viped'' (Vip_GrantedAt r))
                        (zip [Suc i..<Suc i + length vips] vips))"
proof (induction vips arbitrary: i response)
  case Nil
  show ?case by simp
next
  case (Cons r vips)
  have "[Suc i..<Suc i + length (r # vips)] = Suc i # [Suc (Suc i)..<Suc (Suc i) + length vips]"
    using upt_Suc_shift [of i "length vips"] by simp
  then show ?case
    by (simp add: Cons.IH numbered_line_def channel_link_def add.commute del: upt_Suc)
qed

lemma FormatVips_eq:
  "FormatVips username vips =
     channel_link username username @ '''s list of channel vips:\<newline>'' @
     concat (map (\<lambda>(n, r). numbered_line n (Vip_Login r) (Vip_DisplayName r)
                    ''viped'' (Vip_GrantedAt r))
             (zip [1..<Suc (length vips)] vips))"
  by (simp add: FormatVips_def FormatVips_loop_eq channel_link_def del: upt_Suc)

lemma FormatFounders_loop_eq:
  "FormatFounders_loop i founders response =
     response @ concat (map (\<lambda>(n, r). numbered_line n (Founders_Login r) (Founders_DisplayName r)
                               ''founded'' (Founders_FirstMonth r))
                        (zip [Suc i..<Suc i + length founders] founders))"
proof (induction founders arbitrary: i response)
  case Nil
  show ?case by simp
next
  case (Cons r founders)
  have "[Suc i..<Suc i + length (r # founders)] = Suc i # [Suc (Suc i)..<Suc (Suc i) + length founders]"
    using upt_Suc_shift [of i "length founders"] by simp
  then show ?case
    by (simp add: Cons.IH numbered_line_def channel_link_def add.commute del: upt_Suc)
qed

lemma FormatFounders_eq:
  "FormatFounders username founders =
     channel_link username username @ '''s list of channel founders:\<newline>'' @
     concat (map (\<lambda>(n, r). numbered_line n (Founders_Login r) (Founders_DisplayName r)
                    ''founded'' (Founders_FirstMonth r))
             (zip [1..<Suc (length founders)] founders))"
  by (simp add: FormatFounders_def FormatFounders_loop_eq channel_link_def del: upt_Suc)

text \<open>
  Claim C6. For every channel name and list of records, each formatter returns, for no
  record, the header line alone, and for N records the header followed by N numbered
  lines, numbered 1 to N in the order of the list, each a link to the channel of its
  record.
\<close>

theorem Format_header_and_numbered_lines:
  "FormatFollows username [] = channel_link username username @ '' is following:\<newline>'' \<and>
   FormatMods username [] = channel_link username username @ '''s list of channel moders:\<newline>'' \<and>
   FormatVips username [] = channel_link username username @ '''s list of channel vips:\<newline>'' \<and>
   FormatFounders username [] =
     channel_link username username @ '''s list of channel founders:\<newline>'' \<and>
   FormatFollows username follows =
     FormatFollows username [] @
     concat (map (\<lambda>(n, r). numbered_line n (Follow_Login r) (Follow_DisplayName r)
                    ''followed'' (Follow_FollowedAt r))
             (zip [1..<Suc (length follows)] follows)) \<and>
   FormatMods username mods =
     FormatMods username [] @
     concat (map (\<lambda>(n, r). numbered_line n (Mod_Login r) (Mod_DisplayName r)
                    ''moded'' (Mod_GrantedAt r))
             (zip [1..<Suc (length mods)] mods)) \<and>
   FormatVips username vips =
     FormatVips username [] @
     concat (map (\<lambda>(n, r). numbered_line n (Vip_Login r) (Vip_DisplayName r)
                    ''viped'' (Vip_GrantedAt r))
             (zip [1..<Suc (length vips)] vips)) \<and>
   FormatFounders username founders =
     FormatFounders username [] @
     concat (map (\<lambda>(n, r). numbered_line n (Founders_Login r) (Founders_DisplayName r)
                    ''founded'' (Founders_FirstMonth r))
             (zip [1..<Suc (length founders)] founders))"
proof -
  have "FormatFollows username [] = channel_link username username @ '' is following:\<newline>''"
    "FormatMods username [] = channel_link username username @ '''s list of channel moders:\<newline>''"
    "FormatVips username [] = channel_link username username @ '''s list of channel vips:\<newline>''"
    "FormatFounders username [] =
       channel_link username username @ '''s list of channel founders:\<newline>''"
    by (simp_all add: FormatFollows_eq FormatMods_eq FormatVips_eq FormatFounders_eq)
  then show ?thesis
    by (simp only: FormatFollows_eq [of username follows] FormatMods_eq [of username mods]
        FormatVips_eq [of username vips] FormatFounders_eq [of username founders]
        append_assoc simp_thms)
qed

text \<open>
  Claim C7. \<^verbatim>\<open>FormatFounders\<close> on the channel bob and the one founder Bob (login bob,
  first month 2020-01-15) returns the header line and the line numbered 1, each ended by
  a newline.
\<close>

theorem FormatFounders_example:
  "FormatFounders ''bob''
     [\<lparr>Founders_ID = fid, Founders_DisplayName = ''Bob'', Founders_Login = ''bob'',
       Founders_FirstMonth = \<lparr>Year = 2020, Month = 1, Day = 15\<rparr>,
       Founders_IsSubscribed = sub, Founders_Avatar = avatar, Founders_Banned = banned\<rparr>] =
   ''<a href=\"https://twitch.tv/bob\">bob</a>'s list of channel founders:\<newline>'' @
   ''1. <a href=\"https://twitch.tv/bob\">Bob</a> (founded at 2020-01-15)\<newline>''"
  by (simp add: FormatFounders_def Format_date_def appendInt_def Itoa_def FormatUint.simps digit_def)

section \<open>The fetcher: claims\<close>

lemma FetchFollows_status:
  assumes "responds f (''https://tools.2807.eu/api/getfollows/'' @ username) resp"
  shows "StatusCode resp = 404 \<Longrightarrow> FetchFollows f username = Inl ''user not found''"
    and "StatusCode resp = 400 \<Longrightarrow>
         FetchFollows f username = Inl ''the user does not follow any channel''"
    and "StatusCode resp \<notin> {200, 400, 404} \<Longrightarrow>
         FetchFollows f username = Inl (''unexpected status code: '' @ Itoa (StatusCode resp))"
    and "StatusCode resp = 200 \<Longrightarrow> Decode_Follows f (Body resp) = Inl err \<Longrightarrow>
         FetchFollows f username = Inl (''failed to decode response: '' @ err)"
  using assms
  by (simp_all add: FetchFollows_def responds_def StatusOK_def StatusBadRequest_def
      StatusNotFound_def)

lemma FetchMods_status:
  assumes "responds f (''https://tools.2807.eu/api/getmods/'' @ username) resp"
  shows "StatusCode resp = 404 \<Longrightarrow> FetchMods f username = Inl ''user not found''"
    and "StatusCode resp = 400 \<Longrightarrow>
         FetchMods f username = Inl ''the user does not have any moderators on their channel''"
    and "StatusCode resp \<notin> {200, 400, 404} \<Longrightarrow>
         FetchMods f username = Inl (''unexpected status code: '' @ Itoa (StatusCode resp))"
    and "StatusCode resp = 200 \<Longrightarrow> Decode_Mods f (Body resp) = Inl err \<Longrightarrow>
         FetchMods f username = Inl (''failed to decode response: '' @ err)"
  using assms
  by (simp_all add: FetchMods_def responds_def StatusOK_def StatusBadRequest_def
      StatusNotFound_def)

lemma FetchVips_status:
  assumes "responds f (''https://tools.2807.eu/api/getvips/'' @ username) resp"
  shows "StatusCode resp = 404 \<Longrightarrow> FetchVips f username = Inl ''user not found''"
    and "StatusCode resp = 400 \<Longrightarrow>
         FetchVips f username = Inl ''the user does not have any VIPs on their channel''"
    and "StatusCode resp \<notin> {200, 400, 404} \<Longrightarrow>
         FetchVips f username = Inl (''unexpected status code: '' @ Itoa (StatusCode resp))"
    and "StatusCode resp = 200 \<Longrightarrow> Decode_Vips f (Body resp) = Inl err \<Longrightarrow>
         FetchVips f username = Inl (''failed to decode response: '' @ err)"
  using assms
  by (simp_all add: FetchVips_def responds_def StatusOK_def StatusBadRequest_def
      StatusNotFound_def)

lemma FetchFounders_status:
  assumes "responds f (''https://tools.2807.eu/api/getfounders/'' @ username) resp"
  shows "StatusCode resp = 404 \<Longrightarrow> FetchFounders f username = Inl ''user not found''"
    and "StatusCode resp = 400 \<Longrightarrow>
         FetchFounders f username = Inl ''the user does not have any founders on their channel''"
    and "StatusCode resp \<notin> {200, 400, 404} \<Longrightarrow>
         FetchFounders f username = Inl (''unexpected status code: '' @ Itoa (StatusCode resp))"
    and "StatusCode resp = 200 \<Longrightarrow> Decode_Founders f (Body resp) = Inl err \<Longrightarrow>
         FetchFounders f username = Inl (''failed to decode response: '' @ err)"
  using assms
  by (simp_all add: FetchFounders_def responds_def StatusOK_def StatusBadRequest_def
      StatusNotFound_def)

text \<open>
  Claim C4. For each of the four fetch operations, when the request is sent and a response
  comes back: status 404 gives the error "user not found"; status 400 gives the error of
  the kind (no follows, no moderators, no VIPs, no founders); any other status but 200
  gives an error that carries the status code; and status 200 with a body the decoder
  rejects gives a decode error, a returned value like the others.
\<close>

theorem Fetch_status_errors:
  "(responds f (''https://tools.2807.eu/api/getfollows/'' @ username) resp \<longrightarrow>
      (StatusCode resp = 404 \<longrightarrow> FetchFollows f username = Inl ''user not found'') \<and>
      (StatusCode resp = 400 \<longrightarrow>
         FetchFollows f username = Inl ''the user does not follow any channel'') \<and>
      (StatusCode resp \<notin> {200, 400, 404} \<longrightarrow>
         FetchFollows f username = Inl (''unexpected status code: '' @ Itoa (StatusCode resp))) \<and>
      (StatusCode resp = 200 \<and> Decode_Follows f (Body resp) = Inl err \<longrightarrow>
         FetchFollows f username = Inl (''failed to decode response: '' @ err))) \<and>
   (responds f (''https://tools.2807.eu/api/getmods/'' @ username) resp \<longrightarrow>
      (StatusCode resp = 404 \<longrightarrow> FetchMods f username = Inl ''user not found'') \<and>
      (StatusCode resp = 400 \<longrightarrow>
         FetchMods f username = Inl ''the user does not have any moderators on their channel'') \<and>
      (StatusCode resp \<notin> {200, 400, 404} \<longrightarrow>
         FetchMods f username = Inl (''unexpected status code: '' @ Itoa (StatusCode resp))) \<and>
      (StatusCode resp = 200 \<and> Decode_Mods f (Body resp) = Inl err \<longrightarrow>
         FetchMods f username = Inl (''failed to decode response: '' @ err))) \<and>
   (responds f (''https://tools.2807.eu/api/getvips/'' @ username) resp \<longrightarrow>
      (StatusCode resp = 404 \<longrightarrow> FetchVips f username = Inl ''user not found'') \<and>
      (StatusCode resp = 400 \<longrightarrow>
         FetchVips f username = Inl ''the user does not have any VIPs on their channel'') \<and>
      (StatusCode resp \<notin> {200, 400, 404} \<longrightarrow>
         FetchVips f username = Inl (''unexpected status code: '' @ Itoa (StatusCode resp))) \<and>
      (StatusCode resp = 200 \<and> Decode_Vips f (Body resp) = Inl err \<longrightarrow>
         FetchVips f username = Inl (''failed to decode response: '' @ err))) \<and>
   (responds f (''https://tools.2807.eu/api/getfounders/'' @ username) resp \<longrightarrow>
      (StatusCode resp = 404 \<longrightarrow> FetchFounders f username = Inl ''user not found'') \<and>
      (StatusCode resp = 400 \<longrightarrow>
         FetchFounders f username = Inl ''the user does not have any founders on their channel'') \<and>
      (StatusCode resp \<notin> {200, 400, 404} \<longrightarrow>
         FetchFounders f username = Inl (''unexpected status code: '' @ Itoa (StatusCode resp))) \<and>
      (StatusCode resp = 200 \<and> Decode_Founders f (Body resp) = Inl err \<longrightarrow>
         FetchFounders f username = Inl (''failed to decode response: '' @ err)))"
  by (intro conjI impI; (elim conjE)?)
    (erule (1) FetchFollows_status FetchMods_status FetchVips_status FetchFounders_status; assumption)+


lemma Itoa_503: "Itoa 503 = ''503''"
  by (simp add: Itoa_def FormatUint.simps digit_def)

lemma responds_stub: "responds (stub_fetcher code) url \<lparr>StatusCode = code, Body = ''oops''\<rparr>"
  by (simp add: responds_def stub_fetcher_def)

theorem Fetch_status_errors_witness:
  "FetchFollows (stub_fetcher 404) ''alice'' = Inl ''user not found'' \<and>
   FetchMods (stub_fetcher 404) ''alice'' = Inl ''user not found'' \<and>
   FetchVips (stub_fetcher 404) ''alice'' = Inl ''user not found'' \<and>
   FetchFounders (stub_fetcher 404) ''alice'' = Inl ''user not found'' \<and>
   FetchFollows (stub_fetcher 400) ''alice'' = Inl ''the user does not follow any channel'' \<and>
   FetchMods (stub_fetcher 400) ''alice'' =
     Inl ''the user does not have any moderators on their channel'' \<and>
   FetchVips (stub_fetcher 400) ''alice'' = Inl ''the user does not have any VIPs on their channel'' \<and>
   FetchFounders (stub_fetcher 400) ''alice'' =
     Inl ''the user does not have any founders on their channel'' \<and>
   FetchFollows (stub_fetcher 503) ''alice'' = Inl ''unexpected status code: 503'' \<and>
   FetchMods (stub_fetcher 503) ''alice'' = Inl ''unexpected status code: 503'' \<and>
   FetchVips (stub_fetcher 503) ''alice'' = Inl ''unexpected status code: 503'' \<and>
   FetchFounders (stub_fetcher 503) ''alice'' = Inl ''unexpected status code: 503'' \<and>
   FetchFollows (stub_fetcher 200) ''alice'' = Inl ''failed to decode response: invalid character'' \<and>
   FetchMods (stub_fetcher 200) ''alice'' = Inl ''failed to decode response: invalid character'' \<and>
   FetchVips (stub_fetcher 200) ''alice'' = Inl ''failed to decode response: invalid character'' \<and>
   FetchFounders (stub_fetcher 200) ''alice'' = Inl ''failed to decode response: invalid character''"
proof -
  have not_found:
    "FetchFollows (stub_fetcher 404) ''alice'' = Inl ''user not found'' \<and>
     FetchMods (stub_fetcher 404) ''alice'' = Inl ''user not found'' \<and>
     FetchVips (stub_fetcher 404) ''alice'' = Inl ''user not found'' \<and>
     FetchFounders (stub_fetcher 404) ''alice'' = Inl ''user not found''"
    using Fetch_status_errors [of "stub_fetcher 404" "''alice''"
        "\<lparr>StatusCode = 404, Body = ''oops''\<rparr>" "''invalid character''"]
    by (simp add: responds_stub)
  have bad_request:
    "FetchFollows (stub_fetcher 400) ''alice'' = Inl ''the user does not follow any channel'' \<and>
     FetchMods (stub_fetcher 400) ''alice'' =
       Inl ''the user does not have any moderators on their channel'' \<and>
     FetchVips (stub_fetcher 400) ''alice'' =
       Inl ''the user does not have any VIPs on their channel'' \<and>
     FetchFounders (stub_fetcher 400) ''alice'' =
       Inl ''the user does not have any founders on their channel''"
    using Fetch_status_errors [of "stub_fetcher 400" "''alice''"
        "\<lparr>StatusCode = 400, Body = ''oops''\<rparr>" "''invalid character''"]
    by (simp add: responds_stub)
  have other:
    "FetchFollows (stub_fetcher 503) ''alice'' = Inl ''unexpected status code: 503'' \<and>
     FetchMods (stub_fetcher 503) ''alice'' = Inl ''unexpected status code: 503'' \<and>
     FetchVips (stub_fetcher 503) ''alice'' = Inl ''unexpected status code: 503'' \<and>
     FetchFounders (stub_fetcher 503) ''alice'' = Inl ''unexpected status code: 503''"
    using Fetch_status_errors [of "stub_fetcher 503" "''alice''"
        "\<lparr>StatusCode = 503, Body = ''oops''\<rparr>" "''invalid character''"]
    by (simp add: responds_stub Itoa_503)
  have d: "Decode_Follows (stub_fetcher 200) ''oops'' = Inl ''invalid character''"
    "Decode_Mods (stub_fetcher 200) ''oops'' = Inl ''invalid character''"
    "Decode_Vips (stub_fetcher 200) ''oops'' = Inl ''invalid character''"
    "Decode_Founders (stub_fetcher 200) ''oops'' = Inl ''invalid character''"
    by (simp_all add: stub_fetcher_def)
  have malformed:
    "FetchFollows (stub_fetcher 200) ''alice'' =
       Inl ''failed to decode response: invalid character'' \<and>
     FetchMods (stub_fetcher 200) ''alice'' =
       Inl ''failed to decode response: invalid character'' \<and>
     FetchVips (stub_fetcher 200) ''alice'' =
       Inl ''failed to decode response: invalid character'' \<and>
     FetchFounders (stub_fetcher 200) ''alice'' =
       Inl ''failed to decode response: invalid character''"
    using Fetch_status_errors [of "stub_fetcher 200" "''alice''"
        "\<lparr>StatusCode = 200, Body = ''oops''\<rparr>" "''invalid character''"]
    by (simp add: responds_stub d)
  show ?thesis
    by (simp only: not_found bad_request other malformed simp_thms)
qed

section \<open>Configuration: claims\<close>

lemma Getenv_map_add:
  "Getenv (envMap ++ env) key = (case env key of None \<Rightarrow> Getenv envMap key | Some v \<Rightarrow> v)"
  by (simp add: Getenv_def map_add_def split: option.splits)

text \<open>
  Claim C8, as stated, fails: with the token set in the process environment and no
  environment file to open, the token is available and loading returns the error of
  opening the file.
\<close>

theorem Load_token_set_but_no_env_file:
  "token_available (Inl ''open .env: no such file or directory'')
     [''TELEGRAM_TOKEN'' \<mapsto> ''123:abc''] \<and>
   Load (Inl ''open .env: no such file or directory'') [''TELEGRAM_TOKEN'' \<mapsto> ''123:abc''] =
     Inl ''open .env: no such file or directory''"
  by (simp add: token_available_def Load_def godotenv_Load_def Getenv_def)

text \<open>
  Claim C8, amended. Loading succeeds exactly when the environment file can be loaded and
  the token is then non-empty in the environment, and it returns a configuration holding
  that token; it returns an error exactly when the file cannot be loaded or the token is
  then empty. The value of the token is the one of the process environment when the
  variable is defined there, and the one of the file otherwise.
\<close>

theorem Load_succeeds_iff:
  "(Load file env = Inr cfg \<longleftrightarrow>
      (\<exists>envMap. file = Inr envMap \<and> Getenv (envMap ++ env) ''TELEGRAM_TOKEN'' \<noteq> [] \<and>
         cfg = \<lparr>TelegramToken = Getenv (envMap ++ env) ''TELEGRAM_TOKEN''\<rparr>)) \<and>
   ((\<exists>err. Load file env = Inl err) \<longleftrightarrow>
      (\<exists>err. file = Inl err) \<or>
      (\<exists>envMap. file = Inr envMap \<and> Getenv (envMap ++ env) ''TELEGRAM_TOKEN'' = [])) \<and>
   Getenv (envMap ++ env) ''TELEGRAM_TOKEN'' =
     (case env ''TELEGRAM_TOKEN'' of
        None \<Rightarrow> Getenv envMap ''TELEGRAM_TOKEN''
      | Some v \<Rightarrow> v)"
proof (intro conjI)
  show "Load file env = Inr cfg \<longleftrightarrow>
      (\<exists>envMap. file = Inr envMap \<and> Getenv (envMap ++ env) ''TELEGRAM_TOKEN'' \<noteq> [] \<and>
         cfg = \<lparr>TelegramToken = Getenv (envMap ++ env) ''TELEGRAM_TOKEN''\<rparr>)"
    by (cases "file") (auto simp: Load_def godotenv_Load_def validate_def Let_def)
  show "(\<exists>err. Load file env = Inl err) \<longleftrightarrow>
      (\<exists>err. file = Inl err) \<or>
      (\<exists>envMap. file = Inr envMap \<and> Getenv (envMap ++ env) ''TELEGRAM_TOKEN'' = [])"
    by (cases "file") (auto simp: Load_def godotenv_Load_def validate_def Let_def)
  show "Getenv (envMap ++ env) ''TELEGRAM_TOKEN'' =
     (case env ''TELEGRAM_TOKEN'' of
        None \<Rightarrow> Getenv envMap ''TELEGRAM_TOKEN''
      | Some v \<Rightarrow> v)"
    by (rule Getenv_map_add)
qed

theorem Load_succeeds_iff_witness:
  "Load (Inr [''TELEGRAM_TOKEN'' \<mapsto> ''123:abc'']) Map.empty = Inr \<lparr>TelegramToken = ''123:abc''\<rparr> \<and>
   Load (Inr Map.empty) [''TELEGRAM_TOKEN'' \<mapsto> ''456:def''] = Inr \<lparr>TelegramToken = ''456:def''\<rparr> \<and>
   (\<exists>err. Load (Inr [''TELEGRAM_TOKEN'' \<mapsto> ''123:abc'']) [''TELEGRAM_TOKEN'' \<mapsto> ''''] = Inl err) \<and>
   (\<exists>err. Load (Inr Map.empty) Map.empty = Inl err)"
proof -
  have 1: "Load (Inr [''TELEGRAM_TOKEN'' \<mapsto> ''123:abc'']) Map.empty = Inr \<lparr>TelegramToken = ''123:abc''\<rparr>"
    using Load_succeeds_iff [of "Inr [''TELEGRAM_TOKEN'' \<mapsto> ''123:abc'']" Map.empty
        "\<lparr>TelegramToken = ''123:abc''\<rparr>" Map.empty]
    by (simp add: Getenv_def)
  have 2: "Load (Inr Map.empty) [''TELEGRAM_TOKEN'' \<mapsto> ''456:def''] = Inr \<lparr>TelegramToken = ''456:def''\<rparr>"
    using Load_succeeds_iff [of "Inr Map.empty" "[''TELEGRAM_TOKEN'' \<mapsto> ''456:def'']"
        "\<lparr>TelegramToken = ''456:def''\<rparr>" Map.empty]
    by (simp add: Getenv_def)
  have 3: "\<exists>err. Load (Inr [''TELEGRAM_TOKEN'' \<mapsto> ''123:abc'']) [''TELEGRAM_TOKEN'' \<mapsto> ''''] = Inl err"
    using Load_succeeds_iff [of "Inr [''TELEGRAM_TOKEN'' \<mapsto> ''123:abc'']"
        "[''TELEGRAM_TOKEN'' \<mapsto> '''']" "\<lparr>TelegramToken = []\<rparr>" Map.empty]
    by (simp add: Getenv_def)
  have 4: "\<exists>err. Load (Inr Map.empty) Map.empty = Inl err"
    using Load_succeeds_iff [of "Inr Map.empty" Map.empty "\<lparr>TelegramToken = []\<rparr>" Map.empty]
    by (simp add: Getenv_def)
  from 1 2 3 4 show ?thesis by (simp only: simp_thms)
qed

section \<open>The controller: claims\<close>

lemma sendStartKeyboard_message:
  "Update_Message update = Some m \<Longrightarrow>
   sendStartKeyboard update = ([Send (ViewCmdStart_msg (Message_Chat m))], Return ())"
  by (simp add: sendStartKeyboard_def ViewCmdStart_def)

lemma processRequest_unknown:
  "button \<notin> {''follows'', ''moders'', ''vips'', ''founders''} \<Longrightarrow>
   processRequest b username button = ([], [], Some (''unknown button: '' @ button))"
  by (simp add: processRequest_def)

text \<open>
  Claim C9. For every user name and every button other than the four known ones,
  \<^verbatim>\<open>processRequest\<close> calls no fetch operation and returns the empty string with the
  error "unknown button: " followed by the button; the controller, handling the text of a
  user whose session holds such a button, then sends the "Failed to fetch data" message
  and the menu, and nothing else.
\<close>

theorem unknown_button:
  assumes "button \<notin> {''follows'', ''moders'', ''vips'', ''founders''}"
    and "Update_CallbackQuery update = None"
    and "Update_Message update = Some m"
    and "Message_From m = Some from_ID"
    and "userState b from_ID = Some \<lparr>AwaitingUsername = True, PressedButton = button\<rparr>"
  shows "processRequest b username button = ([], [], Some (''unknown button: '' @ button)) \<and>
         handleUpdate b update =
           ([Send (NewMessage (Message_Chat m)
                     (''Failed to fetch data: unknown button: '' @ button @ ''.'')),
             Send (ViewCmdStart_msg (Message_Chat m))],
            Alive (b\<lparr>userState := (userState b)(Message_Chat m := None)\<rparr>))"
proof
  show "processRequest b username button = ([], [], Some (''unknown button: '' @ button))"
    using assms(1) by (rule processRequest_unknown)
  have "handleUserInput b update =
          ([Send (NewMessage (Message_Chat m)
                    (''Failed to fetch data: unknown button: '' @ button @ ''.'')),
            Send (ViewCmdStart_msg (Message_Chat m))],
           Return (b\<lparr>userState := (userState b)(Message_Chat m := None)\<rparr>))"
    using assms
    by (simp add: handleUserInput_def processRequest_unknown sendStartKeyboard_message
        sendError_def)
  then show "handleUpdate b update =
           ([Send (NewMessage (Message_Chat m)
                     (''Failed to fetch data: unknown button: '' @ button @ ''.'')),
             Send (ViewCmdStart_msg (Message_Chat m))],
            Alive (b\<lparr>userState := (userState b)(Message_Chat m := None)\<rparr>))"
    using assms by (simp add: handleUpdate_def dispatch_def isAwaitingUsername_def)
qed


theorem unknown_button_witness:
  "processRequest (main_bot\<lparr>userState := [5 \<mapsto> \<lparr>AwaitingUsername = True, PressedButton = ''subs''\<rparr>]\<rparr>)
     ''alice'' ''subs'' = ([], [], Some ''unknown button: subs'') \<and>
   fst (handleUpdate
     (main_bot\<lparr>userState := [5 \<mapsto> \<lparr>AwaitingUsername = True, PressedButton = ''subs''\<rparr>]\<rparr>)
     (text_message 5 5 ''alice'')) =
     [Send (NewMessage 5 ''Failed to fetch data: unknown button: subs.''),
      Send (ViewCmdStart_msg 5)]"
proof -
  have "''subs'' \<notin> {''follows'', ''moders'', ''vips'', ''founders''}"
    by simp
  from unknown_button [OF this, of "text_message 5 5 ''alice''"
      "\<lparr>Message_From = Some 5, Message_Chat = 5, Message_Text = ''alice'',
        Message_Command = None\<rparr>" 5
      "main_bot\<lparr>userState := [5 \<mapsto> \<lparr>AwaitingUsername = True, PressedButton = ''subs''\<rparr>]\<rparr>"
      "''alice''"]
  show ?thesis
    by (simp add: text_message_def)
qed

lemma handleUpdate_button_press:
  "handleUpdate b (button_press data chat_ID) =
     ([Request_Callback ''1'' data, Send (NewMessage chat_ID ''Enter the channel name:'')],
      Alive (b\<lparr>userState := (userState b)(chat_ID \<mapsto>
        \<lparr>AwaitingUsername = True, PressedButton = data\<rparr>)\<rparr>))"
  by (simp add: handleUpdate_def dispatch_def handleCallback_def button_press_def)

lemma handleUpdate_idle_text:
  "\<not> isAwaitingUsername b from_ID \<Longrightarrow>
   handleUpdate b (text_message from_ID chat_ID text) =
     ([Send (ViewCmdStart_msg chat_ID)], Alive b)"
  by (simp add: handleUpdate_def dispatch_def text_message_def IsCommand_def
      sendStartKeyboard_message)

lemma handleUpdate_vips_username:
  assumes "userState b from_ID = Some \<lparr>AwaitingUsername = True, PressedButton = ''vips''\<rparr>"
    and "Fetcher_FetchVips (fetcher b) username = Inr vips"
  shows "handleUpdate b (text_message from_ID chat_ID username) =
     (Call_FetchVips username #
      map (\<lambda>part. Send ((NewMessage chat_ID part)
             \<lparr>ParseMode := ModeHTML, DisableWebPagePreview := True\<rparr>))
        (SplitMessage (FormatVips username vips) telegramMessageLimit) @
      [Send (ViewCmdStart_msg chat_ID)],
      Alive (b\<lparr>userState := (userState b)(chat_ID := None)\<rparr>))"
  using assms
  by (simp add: handleUpdate_def dispatch_def text_message_def isAwaitingUsername_def
      handleUserInput_def processRequest_def sendStartKeyboard_message)

text \<open>
  In a private chat the sender of a message is the chat, and the conversation runs as the
  specification has it: one call of the fetcher with the text as the user name, the
  session cleared, and the next text answered with the menu.
\<close>

lemma private_chat_conversation:
  assumes "Fetcher_FetchVips (fetcher b) ''alice'' = Inr vips"
  shows "Start b [button_press ''vips'' chat_ID, text_message chat_ID chat_ID ''alice'',
                  text_message chat_ID chat_ID ''bob''] =
     ([Request_Callback ''1'' ''vips'', Send (NewMessage chat_ID ''Enter the channel name:''),
       Call_FetchVips ''alice''] @
      map (\<lambda>part. Send ((NewMessage chat_ID part)
             \<lparr>ParseMode := ModeHTML, DisableWebPagePreview := True\<rparr>))
        (SplitMessage (FormatVips ''alice'' vips) telegramMessageLimit) @
      [Send (ViewCmdStart_msg chat_ID), Send (ViewCmdStart_msg chat_ID)],
      Alive (b\<lparr>userState := (userState b)(chat_ID := None)\<rparr>))"
proof -
  let ?b1 = "b\<lparr>userState := (userState b)(chat_ID \<mapsto>
        \<lparr>AwaitingUsername = True, PressedButton = ''vips''\<rparr>)\<rparr>"
  let ?b2 = "b\<lparr>userState := (userState b)(chat_ID := None)\<rparr>"
  have 2: "handleUpdate ?b1 (text_message chat_ID chat_ID ''alice'') =
     (Call_FetchVips ''alice'' #
      map (\<lambda>part. Send ((NewMessage chat_ID part)
             \<lparr>ParseMode := ModeHTML, DisableWebPagePreview := True\<rparr>))
        (SplitMessage (FormatVips ''alice'' vips) telegramMessageLimit) @
      [Send (ViewCmdStart_msg chat_ID)], Alive ?b2)"
    using handleUpdate_vips_username [of ?b1 chat_ID "''alice''" vips chat_ID] assms
    by simp
  have 3: "handleUpdate ?b2 (text_message chat_ID chat_ID ''bob'') =
     ([Send (ViewCmdStart_msg chat_ID)], Alive ?b2)"
    by (rule handleUpdate_idle_text) (simp add: isAwaitingUsername_def)
  show ?thesis
    by (simp add: handleUpdate_button_press 2 3)
qed

text \<open>
  Claim C1 at a group chat. The session is stored under the identifier of the chat and
  looked up under the identifier of the sender. After the button vips is pressed in the
  chat -1001, the text alice sent to that chat by the user 42 is answered with the menu:
  no fetch operation is called and the session of the chat stays pending.
\<close>

theorem group_chat_username_ignored:
  "Start main_bot [button_press ''vips'' (- 1001), text_message 42 (- 1001) ''alice''] =
     ([Request_Callback ''1'' ''vips'', Send (NewMessage (- 1001) ''Enter the channel name:''),
       Send (ViewCmdStart_msg (- 1001))],
      Alive (main_bot\<lparr>userState :=
        [- 1001 \<mapsto> \<lparr>AwaitingUsername = True, PressedButton = ''vips''\<rparr>]\<rparr>))"
proof -
  let ?b1 = "main_bot\<lparr>userState := (userState main_bot)(- 1001 \<mapsto>
        \<lparr>AwaitingUsername = True, PressedButton = ''vips''\<rparr>)\<rparr>"
  have idle: "userState main_bot = Map.empty"
    by (simp add: main_bot_def RegisterCommand_def New_def)
  have "\<not> isAwaitingUsername ?b1 42"
    by (simp add: isAwaitingUsername_def idle)
  then have "handleUpdate ?b1 (text_message 42 (- 1001) ''alice'') =
     ([Send (ViewCmdStart_msg (- 1001))], Alive ?b1)"
    by (rule handleUpdate_idle_text)
  then show ?thesis
    by (simp add: handleUpdate_button_press idle)
qed

text \<open>
  Claim C5 at an update that panics. The press of a button that carries no message makes
  \<^verbatim>\<open>handleCallback\<close> dereference nil; the deferred function recovers the panic and
  calls \<^verbatim>\<open>log.Fatalf\<close>, so the process exits and the next update is never handled.
\<close>

theorem panic_exits_process:
  "Start main_bot [inline_button_press ''vips'', text_message 42 42 ''hello''] =
     ([Request_Callback ''1'' ''vips'', Log_Fatal (''panic recovered: '' @ nil_dereference)],
      Exited)"
  by (simp add: handleUpdate_def dispatch_def handleCallback_def inline_button_press_def)

end
